theory Spec2Isabelle
  imports Main
begin

section \<open>Data model\<close>

text \<open>
  Modelled from the spec: the module \<^verbatim>\<open>alma_tests_cacher.models\<close> (the pydantic classes
  \<^verbatim>\<open>PackageTestRepository\<close> and \<^verbatim>\<open>TestRepository\<close>) is not among the sources; the
  fields are the ones the spec's data model lists and \<^verbatim>\<open>cacher.py\<close> reads. The Python
  fields \<^verbatim>\<open>id\<close>, \<^verbatim>\<open>name\<close> and \<^verbatim>\<open>url\<close> of the repository are written
  \<open>repo_id\<close>, \<open>repo_name\<close>, \<open>repo_url\<close>, and the package's \<^verbatim>\<open>id\<close> is \<open>pkg_id\<close>.
  An optional field is an \<open>option\<close>; a record synthesized by the pass gets the
  defaults \<open>pkg_id = None\<close> and \<open>regex = None\<close> for the fields it does not pass.
\<close>

record PackageTestRepository =
  pkg_id :: "int option"
  folder_name :: string
  package_name :: string
  url :: string
  regex :: "string option"

record TestRepository =
  repo_id :: int
  repo_name :: string
  repo_url :: string
  tests_dir :: string
  tests_prefix :: "string option"
  common_test_dir_name :: "string option"
  packages :: "PackageTestRepository list"

text \<open>Python truthiness of an \<^verbatim>\<open>Optional[str]\<close> and of an \<^verbatim>\<open>Optional[int]\<close>.\<close>

fun truthy_str :: "string option \<Rightarrow> bool" where
  "truthy_str None = False"
| "truthy_str (Some s) = (s \<noteq> [])"

fun truthy_int :: "int option \<Rightarrow> bool" where
  "truthy_int None = False"
| "truthy_int (Some i) = (i \<noteq> 0)"

section \<open>Effects\<close>

text \<open>
  A pass is observed through the calls it makes, in order. \<open>CallBulkCreate\<close> and
  \<open>CallBulkRemove\<close> record an invocation of the two bulk methods with their arguments;
  \<open>MakeRequest\<close> records an invocation of \<^verbatim>\<open>make_request\<close> (whether the request then
  succeeds or raises makes no difference to the caller: the exception is caught and
  logged; a request that never gets a permit of the request limit is dealt with in
  \<open>run_calls\<close> below). The endpoint \<^verbatim>\<open>/api/v1/test_repositories/{id}/packages/bulk_remove/\<close> is
  \<open>BulkRemoveEndpoint id\<close>, and likewise for \<^verbatim>\<open>bulk_create\<close>. Logging is left out.
\<close>

datatype endpoint = BulkRemoveEndpoint int | BulkCreateEndpoint int

datatype payload = JsonIds "int list" | JsonPackages "PackageTestRepository list"

datatype event =
    GitClone string
  | GitPull
  | RmTree
  | CallBulkCreate "PackageTestRepository list" int
  | CallBulkRemove "int list" int
  | MakeRequest string endpoint payload

section \<open>The rule compiler\<close>

text \<open>
  \<^verbatim>\<open>get_compiled_test_rules\<close>: the rule mapping is the dict read from
  \<^verbatim>\<open>test_rules.json\<close>, as the list of its items in insertion order. The loop carries the
  two lists it appends to.
\<close>

fun compile_loop ::
  "(string \<times> string) list \<Rightarrow> string list \<Rightarrow> string list \<Rightarrow> (string \<times> string) list
    \<Rightarrow> (string \<times> string) list \<times> string list" where
  "compile_loop [] remote_test_folders missing_folders compiled_test_rules =
     (compiled_test_rules, missing_folders)"
| "compile_loop ((rx, folder) # rest) remote_test_folders missing_folders compiled_test_rules =
     (if folder \<notin> set remote_test_folders
      then compile_loop rest remote_test_folders (missing_folders @ [folder]) compiled_test_rules
      else compile_loop rest remote_test_folders missing_folders (compiled_test_rules @ [(rx, folder)]))"

definition get_compiled_test_rules ::
  "(string \<times> string) list \<Rightarrow> string list \<Rightarrow> (string \<times> string) list \<times> string list" where
  "get_compiled_test_rules test_rules remote_test_folders =
     compile_loop test_rules remote_test_folders [] []"

section \<open>The bulk operations\<close>

definition bulk_remove_test_folders :: "int list \<Rightarrow> int \<Rightarrow> event list" where
  "bulk_remove_test_folders test_folders_ids repository_id =
     CallBulkRemove test_folders_ids repository_id #
     (if test_folders_ids = [] then []
      else [MakeRequest ''post'' (BulkRemoveEndpoint repository_id) (JsonIds test_folders_ids)])"

definition bulk_create_test_folders :: "PackageTestRepository list \<Rightarrow> int \<Rightarrow> event list" where
  "bulk_create_test_folders test_folders repository_id =
     CallBulkCreate test_folders repository_id #
     (if test_folders = [] then []
      else [MakeRequest ''post'' (BulkCreateEndpoint repository_id) (JsonPackages test_folders)])"

text \<open>The network requests of a trace.\<close>

fun is_request :: "event \<Rightarrow> bool" where
  "is_request (MakeRequest m e p) = True"
| "is_request _ = False"

definition requests :: "event list \<Rightarrow> event list" where
  "requests tr = filter is_request tr"

section \<open>Library functions the pass calls\<close>

text \<open>
  The pass calls \<^verbatim>\<open>re.search\<close>, \<^verbatim>\<open>re.sub\<close> and \<^verbatim>\<open>urllib.parse.urljoin\<close> of the
  Python library, and \<^verbatim>\<open>prepare_gerrit_repo_url\<close> of \<^verbatim>\<open>alma_tests_cacher.utils\<close>,
  which is not among the sources. They are parameters of the model. A library call
  that raises (\<^verbatim>\<open>re.error\<close> for a pattern that is not a regular expression,
  \<^verbatim>\<open>ValueError\<close> for a URL that does not parse) is \<open>None\<close>:
  \<open>re_search lib pattern s\<close> is \<^verbatim>\<open>re.search(pattern, s)\<close> read as a truth value,
  \<open>re_sub lib pattern repl s\<close> is \<^verbatim>\<open>re.sub(pattern, repl, s)\<close>. \<open>path_glob\<close> is
  \<^verbatim>\<open>Path.glob\<close> on a working copy, for the patterns the model does not evaluate
  itself (see \<open>glob\<close> below). \<^verbatim>\<open>prepare_gerrit_repo_url\<close> is taken to return.
\<close>

datatype node = File "(string \<times> string) list option" | Dir "(string \<times> node) list"

record pylib =
  re_search :: "string \<Rightarrow> string \<Rightarrow> bool option"
  re_sub :: "string \<Rightarrow> string \<Rightarrow> string \<Rightarrow> string option"
  urljoin :: "string \<Rightarrow> string \<Rightarrow> string option"
  prepare_gerrit_repo_url :: "string \<Rightarrow> string \<Rightarrow> string"
  path_glob :: "node option \<Rightarrow> string \<Rightarrow> (string \<times> node) list option"

text \<open>\<^verbatim>\<open>'gerrit' in repo.url\<close>: the substring test.\<close>

fun is_substring :: "string \<Rightarrow> string \<Rightarrow> bool" where
  "is_substring sub [] = (sub = [])"
| "is_substring sub (c # cs) = (take (length sub) (c # cs) = sub \<or> is_substring sub cs)"

section \<open>The checkout on disk\<close>

text \<open>
  The working copy \<^verbatim>\<open>repo_dir\<close> is a tree (the type \<open>node\<close> above): a directory lists
  its entries by name, in the order the operating system enumerates them; a file carries
  what \<^verbatim>\<open>json.load\<close> returns for it, the items of the JSON object in order, or \<open>None\<close>
  when \<^verbatim>\<open>json.load\<close> raises. A working copy that does not exist is
  \<open>None :: node option\<close>.
\<close>

fun split_slash :: "string \<Rightarrow> string list" where
  "split_slash [] = [[]]"
| "split_slash (c # cs) =
     (if c = CHR ''/'' then [] # split_slash cs
      else (case split_slash cs of [] \<Rightarrow> [[c]] | w # ws \<Rightarrow> (c # w) # ws))"

text \<open>
  \<^verbatim>\<open>Path.glob\<close>. The model evaluates a pattern itself when it is plain: every component
  but the last is a name with no wildcard character, not empty and neither \<^verbatim>\<open>.\<close> nor
  \<^verbatim>\<open>..\<close>, and the last component is such a run of characters followed by one star. Then
  each component but the last selects the directory of that name, and the last selects
  the entries, of either kind and hidden ones too, whose name it matches; a working copy
  that is missing, or is a plain file, yields nothing. For every other pattern (a leading
  or doubled slash, \<^verbatim>\<open>?\<close>, \<^verbatim>\<open>[...]\<close>, \<^verbatim>\<open>**\<close>, \<^verbatim>\<open>.\<close>, \<^verbatim>\<open>..\<close>) the result is what
  \<open>path_glob\<close> gives, \<open>None\<close> when \<^verbatim>\<open>glob\<close> raises.
\<close>

definition wildcard_free :: "string \<Rightarrow> bool" where
  "wildcard_free s = list_all (\<lambda>c. c \<notin> set ''*?[]'') s"

definition plain_name :: "string \<Rightarrow> bool" where
  "plain_name s = (s \<noteq> [] \<and> s \<noteq> ''.'' \<and> s \<noteq> ''..'' \<and> wildcard_free s)"

definition plain_pattern :: "string \<Rightarrow> bool" where
  "plain_pattern pattern =
     (list_all plain_name (butlast (split_slash pattern)) \<and>
      (case rev (last (split_slash pattern)) of
         [] \<Rightarrow> False
       | c # p \<Rightarrow> c = CHR ''*'' \<and> wildcard_free p))"

fun fnmatch :: "string \<Rightarrow> string \<Rightarrow> bool" where
  "fnmatch [] s = (s = [])"
| "fnmatch (p # ps) [] = (p = CHR ''*'' \<and> fnmatch ps [])"
| "fnmatch (p # ps) (c # cs) =
     (if p = CHR ''*'' then fnmatch ps (c # cs) \<or> fnmatch (p # ps) cs
      else p = c \<and> fnmatch ps cs)"

fun glob_parts :: "string list \<Rightarrow> node \<Rightarrow> (string \<times> node) list" where
  "glob_parts parts (File content) = []"
| "glob_parts [] (Dir entries) = []"
| "glob_parts [p] (Dir entries) = filter (\<lambda>e. fnmatch p (fst e)) entries"
| "glob_parts (p # q # ps) (Dir entries) =
     concat (map (\<lambda>e. if fnmatch p (fst e) then glob_parts (q # ps) (snd e) else []) entries)"

definition glob :: "pylib \<Rightarrow> node option \<Rightarrow> string \<Rightarrow> (string \<times> node) list option" where
  "glob lib repo_dir pattern =
     (if plain_pattern pattern
      then Some (case repo_dir of None \<Rightarrow> []
                 | Some root \<Rightarrow> glob_parts (split_slash pattern) root)
      else path_glob lib repo_dir pattern)"

text \<open>\<^verbatim>\<open>Path.exists\<close> along a relative path: the node at the end of the path, if any.\<close>

fun descend :: "node \<Rightarrow> string list \<Rightarrow> node option" where
  "descend n [] = Some n"
| "descend (File content) (part # parts) = None"
| "descend (Dir entries) (part # parts) =
     (case map_of entries part of None \<Rightarrow> None | Some n \<Rightarrow> descend n parts)"

text \<open>
  Joining path strings with \<^verbatim>\<open>Path\<close>: empty components and \<^verbatim>\<open>.\<close> are dropped. The
  model follows a joined path in the tree when no part is absolute and none has a
  \<^verbatim>\<open>..\<close> component.
\<close>

definition rel_parts :: "string \<Rightarrow> string list" where
  "rel_parts p = filter (\<lambda>part. part \<noteq> [] \<and> part \<noteq> ''.'') (split_slash p)"

definition resolvable :: "string \<Rightarrow> bool" where
  "resolvable p = (take 1 p \<noteq> ''/'' \<and> ''..'' \<notin> set (split_slash p))"

section \<open>The world of a pass\<close>

text \<open>
  \<^verbatim>\<open>clone_git_repo\<close> and \<^verbatim>\<open>git_pull\<close> belong to \<^verbatim>\<open>alma_tests_cacher.utils\<close>, outside
  the sources. A call either raises or returns, leaving the working copy in some state;
  the exit code and the output are only logged. A pass makes at most one first call (a
  clone when the working copy is absent, a pull otherwise) and at most one repair clone;
  the world gives the outcome of each. \<^verbatim>\<open>shutil.rmtree\<close> on the working copy is the event
  \<open>RmTree\<close>. \<open>rules_elsewhere\<close> is what reading the rule file gives (\<open>None\<close> when it
  raises, no rule when the file is absent) in case its path is one the model does not
  follow in the tree.

  \<open>permits\<close> is the number of permits of \<^verbatim>\<open>self.requests_limit\<close> that are free when the
  pass starts. The pass is taken to run alone: no other task takes or returns a permit
  meanwhile. \<^verbatim>\<open>process_repo\<close> holds one permit from line 184 to its end, and every
  \<^verbatim>\<open>make_request\<close> needs one more (line 88), which it returns when the request is over.
\<close>

datatype git_result = GitRaises | GitReturns "node option"

record world =
  checkout :: "node option"
  on_clone :: git_result
  on_pull :: git_result
  on_reclone :: git_result
  rules_elsewhere :: "(string \<times> string) list option"
  permits :: nat

text \<open>
  How a pass can fail to complete. \<open>CannotCloneGitRepo\<close> is the caught exception of a
  clone (logged, then \<^verbatim>\<open>return\<close>). \<open>GitPullRaised\<close>, \<open>GlobRaised\<close>, \<open>RegexRaised\<close>,
  \<open>TestRulesRaised\<close> and \<open>UrljoinRaised\<close> are exceptions \<^verbatim>\<open>process_repo\<close> does not
  catch: of \<^verbatim>\<open>git_pull\<close>, of \<^verbatim>\<open>glob\<close>, of \<^verbatim>\<open>re.search\<close> or \<^verbatim>\<open>re.sub\<close>, of opening or
  parsing the rule file, and of \<^verbatim>\<open>urljoin\<close>. \<open>BlockedOnLimit\<close> is a pass that never
  returns: it waits for a permit of \<^verbatim>\<open>self.requests_limit\<close> that no one gives back.
\<close>

datatype error =
    CannotCloneGitRepo
  | GitPullRaised
  | GlobRaised
  | RegexRaised
  | TestRulesRaised
  | UrljoinRaised
  | BlockedOnLimit

section \<open>Folder discovery and rule loading\<close>

text \<open>
  Lines 187 and 222 to 241. The working copy is the directory of \<^verbatim>\<open>workdir\<close> named after
  the last part of \<^verbatim>\<open>repo.url\<close>; the model speaks of that directory only. \<open>common_dir\<close>
  is the path from the working copy to the directory of the rule file, as a list of
  names. \<^verbatim>\<open>test_rules_path.exists()\<close> holds for a directory too, and \<^verbatim>\<open>open\<close> then
  raises. The loop over the \<^verbatim>\<open>glob\<close> result carries \<^verbatim>\<open>remote_test_folders\<close>; it ends
  with the exception of \<^verbatim>\<open>re.search\<close> when the pattern does not compile.
\<close>

definition tests_prefix_str :: "TestRepository \<Rightarrow> string" where
  "tests_prefix_str repo = (if truthy_str (tests_prefix repo) then the (tests_prefix repo) else [])"

definition regex_pattern :: "TestRepository \<Rightarrow> string" where
  "regex_pattern repo =
     (if truthy_str (common_test_dir_name repo)
      then ''^('' @ tests_prefix_str repo @ ''|'' @ the (common_test_dir_name repo) @ '')''
      else ''^'' @ tests_prefix_str repo)"

definition common_name :: "TestRepository \<Rightarrow> string" where
  "common_name repo =
     (if truthy_str (common_test_dir_name repo) then the (common_test_dir_name repo)
      else ''common'')"

definition common_dir :: "TestRepository \<Rightarrow> string list" where
  "common_dir repo = rel_parts (tests_dir repo) @ rel_parts (common_name repo)"

fun scan_folders ::
  "pylib \<Rightarrow> string \<Rightarrow> (string \<times> node) list \<Rightarrow> string list \<Rightarrow> error + string list" where
  "scan_folders lib pat [] remote_test_folders = Inr remote_test_folders"
| "scan_folders lib pat (folder # rest) remote_test_folders =
     (case re_search lib pat (fst folder) of
        None \<Rightarrow> Inl RegexRaised
      | Some found \<Rightarrow>
          if \<not> found then scan_folders lib pat rest remote_test_folders
          else scan_folders lib pat rest (remote_test_folders @ [fst folder]))"

definition discover :: "pylib \<Rightarrow> node option \<Rightarrow> TestRepository \<Rightarrow> error + string list" where
  "discover lib repo_dir repo =
     (case glob lib repo_dir (tests_dir repo @ ''*'') of
        None \<Rightarrow> Inl GlobRaised
      | Some found \<Rightarrow> scan_folders lib (regex_pattern repo) found [])"

definition load_test_rules ::
  "world \<Rightarrow> node option \<Rightarrow> TestRepository \<Rightarrow> error + (string \<times> string) list" where
  "load_test_rules w repo_dir repo =
     (if resolvable (tests_dir repo) \<and> resolvable (common_name repo)
      then (case repo_dir of
              None \<Rightarrow> Inr []
            | Some root \<Rightarrow>
               (case descend root (common_dir repo @ [''test_rules.json'']) of
                  None \<Rightarrow> Inr []
                | Some (Dir entries) \<Rightarrow> Inl TestRulesRaised
                | Some (File None) \<Rightarrow> Inl TestRulesRaised
                | Some (File (Some test_rules)) \<Rightarrow> Inr test_rules))
      else (case rules_elsewhere w of
              None \<Rightarrow> Inl TestRulesRaised
            | Some test_rules \<Rightarrow> Inr test_rules))"

section \<open>Checkout, compilation and self-heal (lines 185 to 268)\<close>

definition acquire :: "world \<Rightarrow> TestRepository \<Rightarrow> event list \<times> (error + node option)" where
  "acquire w repo =
     (if checkout w = None
      then (case on_clone w of
              GitRaises \<Rightarrow> ([GitClone (repo_url repo)], Inl CannotCloneGitRepo)
            | GitReturns repo_dir \<Rightarrow> ([GitClone (repo_url repo)], Inr repo_dir))
      else (case on_pull w of
              GitRaises \<Rightarrow> ([GitPull], Inl GitPullRaised)
            | GitReturns repo_dir \<Rightarrow> ([GitPull], Inr repo_dir)))"

definition self_heal ::
  "pylib \<Rightarrow> world \<Rightarrow> TestRepository \<Rightarrow> (string \<times> string) list
    \<Rightarrow> event list \<times> (error + string list \<times> (string \<times> string) list)" where
  "self_heal lib w repo test_rules =
     (case on_reclone w of
        GitRaises \<Rightarrow> ([RmTree, GitClone (repo_url repo)], Inl CannotCloneGitRepo)
      | GitReturns repo_dir \<Rightarrow>
         (case discover lib repo_dir repo of
            Inl e \<Rightarrow> ([RmTree, GitClone (repo_url repo)], Inl e)
          | Inr remote_test_folders \<Rightarrow>
             ([RmTree, GitClone (repo_url repo)],
              Inr (remote_test_folders,
                   fst (get_compiled_test_rules test_rules remote_test_folders)))))"

definition checkout_and_compile ::
  "pylib \<Rightarrow> world \<Rightarrow> TestRepository
    \<Rightarrow> event list \<times> (error + string list \<times> (string \<times> string) list)" where
  "checkout_and_compile lib w repo =
     (case acquire w repo of
        (ev, Inl e) \<Rightarrow> (ev, Inl e)
      | (ev, Inr repo_dir) \<Rightarrow>
         (case discover lib repo_dir repo of
            Inl e \<Rightarrow> (ev, Inl e)
          | Inr remote_test_folders \<Rightarrow>
             (case load_test_rules w repo_dir repo of
                Inl e \<Rightarrow> (ev, Inl e)
              | Inr test_rules \<Rightarrow>
                 (case get_compiled_test_rules test_rules remote_test_folders of
                    (compiled_test_rules, missing_folders) \<Rightarrow>
                      if missing_folders \<noteq> []
                      then (case self_heal lib w repo test_rules of
                              (ev2, r) \<Rightarrow> (ev @ ev2, r))
                      else (ev, Inr (remote_test_folders, compiled_test_rules))))))"

section \<open>Diff and apply (lines 269 to 323)\<close>

text \<open>
  \<^verbatim>\<open>test_folders_mapping\<close> is built once, before the loops, from the packages the API
  listed; a later entry with the same folder name replaces an earlier one. A pydantic
  model instance is truthy, so \<^verbatim>\<open>if existent_test\<close> holds exactly when the key is there.
\<close>

definition test_folders_mapping ::
  "PackageTestRepository list \<Rightarrow> (string \<rightharpoonup> PackageTestRepository)" where
  "test_folders_mapping pkgs = fold (\<lambda>test m. m(folder_name test \<mapsto> test)) pkgs Map.empty"

text \<open>
  The record synthesized for a discovered folder, and for a compiled rule, when neither
  \<^verbatim>\<open>re.sub\<close> nor \<^verbatim>\<open>urljoin\<close> raises; \<open>folder_test_raises\<close> and \<open>rule_test_raises\<close> say
  whether one does, and which, in the order the arguments are evaluated.
\<close>

definition new_folder_test :: "pylib \<Rightarrow> TestRepository \<Rightarrow> string \<Rightarrow> PackageTestRepository" where
  "new_folder_test lib repo remote_test_folder =
     \<lparr>pkg_id = None,
      folder_name = remote_test_folder,
      package_name = the (re_sub lib (''^'' @ tests_prefix_str repo) [] remote_test_folder),
      url = the (urljoin lib (the (urljoin lib (repo_url repo) (tests_dir repo)))
                   remote_test_folder),
      regex = None\<rparr>"

definition new_rule_test ::
  "pylib \<Rightarrow> TestRepository \<Rightarrow> string \<Rightarrow> string \<Rightarrow> PackageTestRepository" where
  "new_rule_test lib repo pattern target_dir =
     \<lparr>pkg_id = None,
      folder_name = target_dir,
      package_name = pattern,
      url = the (urljoin lib (the (urljoin lib (repo_url repo) (tests_dir repo))) target_dir),
      regex = Some pattern\<rparr>"

definition url_raises :: "pylib \<Rightarrow> TestRepository \<Rightarrow> string \<Rightarrow> error option" where
  "url_raises lib repo folder =
     (case urljoin lib (repo_url repo) (tests_dir repo) of
        None \<Rightarrow> Some UrljoinRaised
      | Some base \<Rightarrow>
         (case urljoin lib base folder of
            None \<Rightarrow> Some UrljoinRaised
          | Some u \<Rightarrow> None))"

definition folder_test_raises :: "pylib \<Rightarrow> TestRepository \<Rightarrow> string \<Rightarrow> error option" where
  "folder_test_raises lib repo remote_test_folder =
     (case re_sub lib (''^'' @ tests_prefix_str repo) [] remote_test_folder of
        None \<Rightarrow> Some RegexRaised
      | Some name \<Rightarrow> url_raises lib repo remote_test_folder)"

definition rule_test_raises :: "pylib \<Rightarrow> TestRepository \<Rightarrow> string \<Rightarrow> error option" where
  "rule_test_raises lib repo target_dir = url_raises lib repo target_dir"

text \<open>
  The two loops carry \<^verbatim>\<open>new_test_folders\<close> and \<^verbatim>\<open>repo.packages\<close>, the two lists they
  append to.
\<close>

fun folders_loop ::
  "pylib \<Rightarrow> TestRepository \<Rightarrow> (string \<rightharpoonup> PackageTestRepository) \<Rightarrow> string list
    \<Rightarrow> PackageTestRepository list \<times> PackageTestRepository list
    \<Rightarrow> error + PackageTestRepository list \<times> PackageTestRepository list" where
  "folders_loop lib repo m [] st = Inr st"
| "folders_loop lib repo m (remote_test_folder # rest) (new_test_folders, pkgs) =
     (case m remote_test_folder of
        Some existent_test \<Rightarrow> folders_loop lib repo m rest (new_test_folders, pkgs)
      | None \<Rightarrow>
         (case folder_test_raises lib repo remote_test_folder of
            Some e \<Rightarrow> Inl e
          | None \<Rightarrow>
              folders_loop lib repo m rest
                (new_test_folders @ [new_folder_test lib repo remote_test_folder],
                 pkgs @ [new_folder_test lib repo remote_test_folder])))"

fun rules_loop ::
  "pylib \<Rightarrow> TestRepository \<Rightarrow> (string \<rightharpoonup> PackageTestRepository) \<Rightarrow> (string \<times> string) list
    \<Rightarrow> PackageTestRepository list \<times> PackageTestRepository list
    \<Rightarrow> error + PackageTestRepository list \<times> PackageTestRepository list" where
  "rules_loop lib repo m [] st = Inr st"
| "rules_loop lib repo m ((pattern, target_dir) # rest) (new_test_folders, pkgs) =
     (case m target_dir of
        Some existent_test \<Rightarrow> rules_loop lib repo m rest (new_test_folders, pkgs)
      | None \<Rightarrow>
         (case rule_test_raises lib repo target_dir of
            Some e \<Rightarrow> Inl e
          | None \<Rightarrow>
              rules_loop lib repo m rest
                (new_test_folders @ [new_rule_test lib repo pattern target_dir],
                 pkgs @ [new_rule_test lib repo pattern target_dir])))"

text \<open>The two list comprehensions of identifiers (lines 307 to 312 and 317 to 321).\<close>

definition vanished_ids :: "string list \<Rightarrow> PackageTestRepository list \<Rightarrow> int list" where
  "vanished_ids remote_test_folders pkgs =
     map (\<lambda>existent_test. the (pkg_id existent_test))
       (filter (\<lambda>existent_test.
          folder_name existent_test \<notin> set remote_test_folders \<and> truthy_int (pkg_id existent_test))
        pkgs)"

definition all_ids :: "PackageTestRepository list \<Rightarrow> int list" where
  "all_ids pkgs =
     map (\<lambda>existent_test. the (pkg_id existent_test))
       (filter (\<lambda>existent_test. truthy_int (pkg_id existent_test)) pkgs)"

definition synthesize ::
  "pylib \<Rightarrow> TestRepository \<Rightarrow> string list \<Rightarrow> (string \<times> string) list
    \<Rightarrow> error + PackageTestRepository list \<times> PackageTestRepository list" where
  "synthesize lib repo remote_test_folders compiled_test_rules =
     (case folders_loop lib repo (test_folders_mapping (packages repo)) remote_test_folders
             ([], packages repo) of
        Inl e \<Rightarrow> Inl e
      | Inr st \<Rightarrow>
          rules_loop lib repo (test_folders_mapping (packages repo)) compiled_test_rules st)"

text \<open>
  The bulk calls of lines 305 to 323 run one after the other. \<open>free\<close> is the number of
  permits left besides the one the pass holds. A call that makes a request needs one;
  with none left the pass stays in that call for ever, and the calls after it are not
  made. The flag says whether the last call returned.
\<close>

fun run_calls :: "nat \<Rightarrow> event list list \<Rightarrow> event list \<times> bool" where
  "run_calls free [] = ([], True)"
| "run_calls free (call # calls) =
     (if free = 0 \<and> requests call \<noteq> [] then (call, False)
      else (case run_calls free calls of (tr, returned) \<Rightarrow> (call @ tr, returned)))"

definition reconcile ::
  "pylib \<Rightarrow> nat \<Rightarrow> TestRepository \<Rightarrow> string list \<Rightarrow> (string \<times> string) list
    \<Rightarrow> event list \<times> (error + TestRepository)" where
  "reconcile lib free repo remote_test_folders compiled_test_rules =
     (case synthesize lib repo remote_test_folders compiled_test_rules of
        Inl e \<Rightarrow> ([], Inl e)
      | Inr (new_test_folders, pkgs) \<Rightarrow>
         (case run_calls free
                 ([bulk_create_test_folders new_test_folders (repo_id repo),
                   bulk_remove_test_folders (vanished_ids remote_test_folders pkgs) (repo_id repo)]
                  @ (if remote_test_folders = [] \<and> pkgs \<noteq> []
                     then [bulk_remove_test_folders (all_ids pkgs) (repo_id repo)]
                     else [])) of
            (tr, returned) \<Rightarrow>
              (tr, if returned then Inr (repo\<lparr>packages := pkgs\<rparr>) else Inl BlockedOnLimit)))"

section \<open>One pass over a repository\<close>

text \<open>
  What a completed pass leaves: the discovered folders and the compiled rules it diffed
  against, and the repository with the synthesized records appended.
\<close>

record pass_end =
  final_folders :: "string list"
  final_rules :: "(string \<times> string) list"
  final_repo :: TestRepository

definition gerrit_rewrite :: "pylib \<Rightarrow> string \<Rightarrow> TestRepository \<Rightarrow> TestRepository" where
  "gerrit_rewrite lib gerrit_username repo =
     (if is_substring ''gerrit'' (repo_url repo)
      then repo\<lparr>repo_url := prepare_gerrit_repo_url lib (repo_url repo) gerrit_username\<rparr>
      else repo)"

definition process_repo ::
  "pylib \<Rightarrow> string \<Rightarrow> world \<Rightarrow> TestRepository \<Rightarrow> event list \<times> (error + pass_end)" where
  "process_repo lib gerrit_username w repo =
     (if permits w = 0 then ([], Inl BlockedOnLimit)
      else
       (case checkout_and_compile lib w (gerrit_rewrite lib gerrit_username repo) of
          (ev, Inl e) \<Rightarrow> (ev, Inl e)
        | (ev, Inr (remote_test_folders, compiled_test_rules)) \<Rightarrow>
           (case reconcile lib (permits w - 1) (gerrit_rewrite lib gerrit_username repo)
                   remote_test_folders compiled_test_rules of
              (ev2, Inl e) \<Rightarrow> (ev @ ev2, Inl e)
            | (ev2, Inr repo') \<Rightarrow>
                (ev @ ev2,
                 Inr \<lparr>final_folders = remote_test_folders,
                      final_rules = compiled_test_rules,
                      final_repo = repo'\<rparr>))))"

text \<open>Reading a trace: the argument lists of the bulk calls, in call order.\<close>

fun create_calls :: "event list \<Rightarrow> PackageTestRepository list list" where
  "create_calls [] = []"
| "create_calls (CallBulkCreate test_folders rid # tr) = test_folders # create_calls tr"
| "create_calls (e # tr) = create_calls tr"

fun remove_calls :: "event list \<Rightarrow> int list list" where
  "remove_calls [] = []"
| "remove_calls (CallBulkRemove ids rid # tr) = ids # remove_calls tr"
| "remove_calls (e # tr) = remove_calls tr"



section \<open>The tests root, in the spec's words\<close>

text \<open>
  The spec speaks of the immediate children of the repository's tests root. For
  comparison with \<open>discover\<close>: \<open>tests_root_children\<close> is the listing of the directory
  reached from the working copy along the given path (nothing when the path does not
  lead to a directory), and \<open>wf_node\<close> says that no directory lists a name twice.
\<close>

fun wf_node :: "node \<Rightarrow> bool" where
  "wf_node (File content) = True"
| "wf_node (Dir entries) =
     (distinct (map fst entries) \<and> (\<forall>entry \<in> set entries. wf_node (snd entry)))"

definition tests_root_children :: "node \<Rightarrow> string list \<Rightarrow> (string \<times> node) list" where
  "tests_root_children root parts =
     (case descend root parts of
        Some (Dir entries) \<Rightarrow> entries
      | Some (File content) \<Rightarrow> []
      | None \<Rightarrow> [])"

section \<open>A plain instance of the library functions\<close>

text \<open>
  For concrete runs: \<open>plain_lib\<close> agrees with the Python library on the inputs used
  below, where the prefix and the common directory name contain no regular-expression
  metacharacter (so \<^verbatim>\<open>^p\<close> matches the names that start with \<open>p\<close>, and \<^verbatim>\<open>^(p|c)\<close> those
  that start with \<open>p\<close> or with \<open>c\<close>), the URL base ends with a slash, the reference is a
  plain relative name, and the \<^verbatim>\<open>glob\<close> pattern is plain, so that \<open>path_glob\<close> is not
  consulted.
\<close>

definition startswith :: "string \<Rightarrow> string \<Rightarrow> bool" where
  "startswith p s = (take (length p) s = p)"

definition plain_search :: "string \<Rightarrow> string \<Rightarrow> bool" where
  "plain_search pat s =
     (if take 2 pat = ''^('' \<and> \<not> (length pat < 3) \<and> last pat = CHR '')''
      then list_ex (\<lambda>alt. startswith alt s)
             (case_prod (\<lambda>a b. [a, b])
                (takeWhile (\<lambda>c. c \<noteq> CHR ''|'') (butlast (drop 2 pat)),
                 drop 1 (dropWhile (\<lambda>c. c \<noteq> CHR ''|'') (butlast (drop 2 pat)))))
      else startswith (drop 1 pat) s)"

definition plain_sub :: "string \<Rightarrow> string \<Rightarrow> string \<Rightarrow> string" where
  "plain_sub pat repl s =
     (if startswith (drop 1 pat) s then repl @ drop (length pat - 1) s else s)"

definition plain_lib :: pylib where
  "plain_lib =
     \<lparr>re_search = (\<lambda>pat s. Some (plain_search pat s)),
      re_sub = (\<lambda>pat repl s. Some (plain_sub pat repl s)),
      urljoin = (\<lambda>base ref. Some (base @ ref)),
      prepare_gerrit_repo_url = (\<lambda>u username. u),
      path_glob = (\<lambda>repo_dir pattern. Some [])\<rparr>"

section \<open>Concrete checkouts and repositories\<close>

text \<open>
  A world where every git call succeeds and leaves the working copy as the given tree
  (the upstream repository does not change during the pass), with two permits free: one
  for the pass and one for its requests.
\<close>

definition steady_world :: "node \<Rightarrow> world" where
  "steady_world tree =
     \<lparr>checkout = Some tree,
      on_clone = GitReturns (Some tree),
      on_pull = GitReturns (Some tree),
      on_reclone = GitReturns (Some tree),
      rules_elsewhere = Some [],
      permits = 2\<rparr>"

definition repo_with :: "PackageTestRepository list \<Rightarrow> TestRepository" where
  "repo_with pkgs =
     \<lparr>repo_id = 7,
      repo_name = ''demo'',
      repo_url = ''https://git.example.org/demo/'',
      tests_dir = ''tests/'',
      tests_prefix = Some ''test-'',
      common_test_dir_name = None,
      packages = pkgs\<rparr>"

definition known :: "int \<Rightarrow> string \<Rightarrow> PackageTestRepository" where
  "known i folder =
     \<lparr>pkg_id = Some i,
      folder_name = folder,
      package_name = drop 5 folder,
      url = ''https://git.example.org/demo/tests/'' @ folder,
      regex = None\<rparr>"

text \<open>
  \<open>ruled_tree\<close>: one test folder, and a rule file whose only rule targets that folder.
  \<open>notes_tree\<close>: one test folder and a plain file with the prefix beside it.
  \<open>empty_tree\<close>: a tests root with no entry. \<open>stale_tree\<close>: a rule file naming a
  folder that does not exist. \<open>rules_only_tree\<close>: such a rule file and no test folder.
  \<open>beside_tree\<close>: a tests root named \<open>test\<close> with one test folder, and a directory
  \<open>test-data\<close> beside the tests root.
\<close>

definition ruled_tree :: node where
  "ruled_tree =
     Dir [(''tests'',
           Dir [(''test-beta'', Dir []),
                (''common'', Dir [(''test_rules.json'', File (Some [(''^b.*'', ''test-beta'')]))])])]"

definition notes_tree :: node where
  "notes_tree =
     Dir [(''tests'', Dir [(''test-alpha'', Dir []), (''test-notes.txt'', File None)])]"

definition empty_tree :: node where
  "empty_tree = Dir [(''tests'', Dir [])]"


definition rules_only_tree :: node where
  "rules_only_tree =
     Dir [(''tests'',
           Dir [(''common'', Dir [(''test_rules.json'', File (Some [(''^x.*'', ''test-x'')]))])])]"

definition beside_tree :: node where
  "beside_tree =
     Dir [(''test'', Dir [(''test-alpha'', Dir [])]), (''test-data'', Dir [])]"

section \<open>Properties\<close>

lemma compile_loop_eq:
  "compile_loop rules remote missing compiled =
     (compiled @ filter (\<lambda>r. snd r \<in> set remote) rules,
      missing @ map snd (filter (\<lambda>r. snd r \<notin> set remote) rules))"
  by (induction rules remote missing compiled rule: compile_loop.induct) simp_all

text \<open>
  C7. The rule compiler partitions the rules: the compiled list is the sublist of the
  (pattern, target) items whose target is among the discovered folders, in the order of
  the rule mapping, and the missing list is the targets of the other items. The function
  is pure: it takes the two inputs as values and returns the pair, with no access to the
  checkout or to the network.
\<close>

theorem get_compiled_test_rules_partition:
  "get_compiled_test_rules test_rules remote_test_folders =
     (filter (\<lambda>(rx, folder). folder \<in> set remote_test_folders) test_rules,
      map snd (filter (\<lambda>(rx, folder). folder \<notin> set remote_test_folders) test_rules))"
  by (simp add: get_compiled_test_rules_def compile_loop_eq case_prod_unfold)

text \<open>
  C6. Called with an empty list, either bulk operation returns without invoking
  \<^verbatim>\<open>make_request\<close>, whatever the repository id.
\<close>

theorem bulk_empty_no_request:
  "requests (bulk_create_test_folders [] repository_id) = [] \<and>
   requests (bulk_remove_test_folders [] repository_id) = []"
  by (simp add: requests_def bulk_create_test_folders_def bulk_remove_test_folders_def)

subsection \<open>The loops in closed form\<close>

lemma test_folders_mapping_fold:
  "fold (\<lambda>test m. m(folder_name test \<mapsto> test)) pkgs m0 f = None
     \<longleftrightarrow> m0 f = None \<and> f \<notin> folder_name ` set pkgs"
  by (induction pkgs arbitrary: m0) auto

lemma test_folders_mapping_None:
  "test_folders_mapping pkgs f = None \<longleftrightarrow> f \<notin> folder_name ` set pkgs"
  by (simp add: test_folders_mapping_def test_folders_mapping_fold)

lemma folders_loop_Inr:
  "folders_loop lib repo m fs (new, pkgs) = Inr (new', pkgs') \<Longrightarrow>
     new' = new @ map (new_folder_test lib repo) (filter (\<lambda>f. m f = None) fs)
     \<and> pkgs' = pkgs @ map (new_folder_test lib repo) (filter (\<lambda>f. m f = None) fs)"
proof (induction fs arbitrary: new pkgs)
  case Nil
  then show ?case by simp
next
  case (Cons f fs)
  show ?case
  proof (cases "m f")
    case (Some existent)
    with Cons.prems have "folders_loop lib repo m fs (new, pkgs) = Inr (new', pkgs')"
      by simp
    from Cons.IH [OF this] Some show ?thesis by simp
  next
    case None
    with Cons.prems have
      l: "folders_loop lib repo m fs
            (new @ [new_folder_test lib repo f], pkgs @ [new_folder_test lib repo f])
            = Inr (new', pkgs')"
      by (auto split: option.splits)
    from Cons.IH [OF l] None show ?thesis by simp
  qed
qed

lemma rules_loop_Inr:
  "rules_loop lib repo m rules (new, pkgs) = Inr (new', pkgs') \<Longrightarrow>
     new' = new @ map (\<lambda>r. new_rule_test lib repo (fst r) (snd r))
                    (filter (\<lambda>r. m (snd r) = None) rules)
     \<and> pkgs' = pkgs @ map (\<lambda>r. new_rule_test lib repo (fst r) (snd r))
                       (filter (\<lambda>r. m (snd r) = None) rules)"
proof (induction rules arbitrary: new pkgs)
  case Nil
  then show ?case by simp
next
  case (Cons rule rules)
  obtain pattern target_dir where rule: "rule = (pattern, target_dir)"
    by (cases rule)
  show ?case
  proof (cases "m target_dir")
    case (Some existent)
    with Cons.prems have "rules_loop lib repo m rules (new, pkgs) = Inr (new', pkgs')"
      by (simp add: rule)
    from Cons.IH [OF this] Some show ?thesis by (simp add: rule)
  next
    case None
    with Cons.prems have
      l: "rules_loop lib repo m rules
            (new @ [new_rule_test lib repo pattern target_dir],
             pkgs @ [new_rule_test lib repo pattern target_dir])
            = Inr (new', pkgs')"
      by (auto simp: rule split: option.splits)
    from Cons.IH [OF l] None show ?thesis by (simp add: rule)
  qed
qed

lemma synthesize_Inr:
  assumes "synthesize lib repo D R = Inr (new, pkgs)"
  shows "new =
           map (new_folder_test lib repo) (filter (\<lambda>f. f \<notin> folder_name ` set (packages repo)) D)
           @ map (\<lambda>r. new_rule_test lib repo (fst r) (snd r))
               (filter (\<lambda>r. snd r \<notin> folder_name ` set (packages repo)) R)"
    and "pkgs = packages repo @ new"
proof -
  from assms obtain new1 pkgs1 where
    f: "folders_loop lib repo (test_folders_mapping (packages repo)) D ([], packages repo)
          = Inr (new1, pkgs1)"
    and r: "rules_loop lib repo (test_folders_mapping (packages repo)) R (new1, pkgs1)
          = Inr (new, pkgs)"
    by (auto simp: synthesize_def split: sum.splits)
  from folders_loop_Inr [OF f] rules_loop_Inr [OF r]
  show "new =
           map (new_folder_test lib repo) (filter (\<lambda>f. f \<notin> folder_name ` set (packages repo)) D)
           @ map (\<lambda>r. new_rule_test lib repo (fst r) (snd r))
               (filter (\<lambda>r. snd r \<notin> folder_name ` set (packages repo)) R)"
    and "pkgs = packages repo @ new"
    by (simp_all add: test_folders_mapping_None)
qed

lemma synthesize_nothing: "synthesize lib repo [] [] = Inr ([], packages repo)"
  by (simp add: synthesize_def)

lemma folder_name_new [simp]:
  "folder_name (new_folder_test lib repo f) = f"
  "folder_name (new_rule_test lib repo p f) = f"
  by (simp_all add: new_folder_test_def new_rule_test_def)

lemma pkg_id_new [simp]:
  "pkg_id (new_folder_test lib repo f) = None"
  "pkg_id (new_rule_test lib repo p f) = None"
  by (simp_all add: new_folder_test_def new_rule_test_def)

lemma synthesized_no_id:
  assumes "synthesize lib repo D R = Inr (new, pkgs)" and "t \<in> set new"
  shows "pkg_id t = None"
  using assms(2) unfolding synthesize_Inr(1) [OF assms(1)] by auto

lemma synthesized_folders:
  assumes "synthesize lib repo D R = Inr (new, pkgs)"
  shows "folder_name ` set new = (set D \<union> snd ` set R) - folder_name ` set (packages repo)"
proof -
  have "folder_name ` set new =
          {f \<in> set D. f \<notin> folder_name ` set (packages repo)}
          \<union> snd ` {r \<in> set R. snd r \<notin> folder_name ` set (packages repo)}"
    unfolding synthesize_Inr(1) [OF assms] by (simp add: image_Un image_image)
  also have "\<dots> = (set D \<union> snd ` set R) - folder_name ` set (packages repo)"
    by auto
  finally show ?thesis .
qed

lemma filter_no_id:
  "(\<And>t. t \<in> set ts \<Longrightarrow> pkg_id t = None)
     \<Longrightarrow> filter (\<lambda>t. P t \<and> truthy_int (pkg_id t)) ts = []"
  by (induction ts) auto

lemma vanished_ids_no_id:
  "(\<And>t. t \<in> set new \<Longrightarrow> pkg_id t = None)
     \<Longrightarrow> vanished_ids D (pkgs @ new) = vanished_ids D pkgs"
  by (simp add: vanished_ids_def filter_no_id)

lemma all_ids_no_id:
  "(\<And>t. t \<in> set new \<Longrightarrow> pkg_id t = None) \<Longrightarrow> all_ids (pkgs @ new) = all_ids pkgs"
  using filter_no_id [of new "\<lambda>t. True"] by (simp add: all_ids_def)

subsection \<open>The bulk calls and the request limit\<close>

lemma run_calls_returned: "run_calls free calls = (tr, True) \<Longrightarrow> tr = concat calls"
  by (induction calls arbitrary: tr) (auto split: if_splits prod.splits)

lemma run_calls_free: "free \<noteq> 0 \<Longrightarrow> run_calls free calls = (concat calls, True)"
  by (induction calls) simp_all

lemma run_calls_quiet:
  "(\<And>call. call \<in> set calls \<Longrightarrow> requests call = []) \<Longrightarrow>
     run_calls free calls = (concat calls, True)"
  by (induction calls) simp_all

lemma run_calls_prefix: "run_calls free calls = (tr, b) \<Longrightarrow> \<exists>k. tr = concat (take k calls)"
proof (induction calls arbitrary: tr b)
  case Nil
  then show ?case by simp
next
  case (Cons call calls)
  show ?case
  proof (cases "free = 0 \<and> requests call \<noteq> []")
    case True
    with Cons.prems have "tr = concat (take 1 (call # calls))" by auto
    then show ?thesis by blast
  next
    case False
    with Cons.prems obtain tr' where r: "run_calls free calls = (tr', b)" and tr: "tr = call @ tr'"
      by (auto split: prod.splits)
    from Cons.IH [OF r] obtain k where "tr' = concat (take k calls)" by blast
    then have "tr = concat (take (Suc k) (call # calls))" by (simp add: tr)
    then show ?thesis by blast
  qed
qed

lemma concat_three:
  "concat ([a, b] @ (if c then [d] else [])) = a @ b @ (if c then d else [])"
  by simp

lemma reconcile_synthesized:
  assumes "synthesize lib repo D R = Inr (new, pkgs)"
  shows "reconcile lib free repo D R =
           (fst (run_calls free
                  ([bulk_create_test_folders new (repo_id repo),
                    bulk_remove_test_folders (vanished_ids D (packages repo)) (repo_id repo)]
                   @ (if D = [] \<and> packages repo @ new \<noteq> []
                      then [bulk_remove_test_folders (all_ids (packages repo)) (repo_id repo)]
                      else []))),
            if snd (run_calls free
                  ([bulk_create_test_folders new (repo_id repo),
                    bulk_remove_test_folders (vanished_ids D (packages repo)) (repo_id repo)]
                   @ (if D = [] \<and> packages repo @ new \<noteq> []
                      then [bulk_remove_test_folders (all_ids (packages repo)) (repo_id repo)]
                      else [])))
            then Inr (repo\<lparr>packages := packages repo @ new\<rparr>)
            else Inl BlockedOnLimit)"
proof -
  have pkgs: "pkgs = packages repo @ new"
    by (rule synthesize_Inr(2) [OF assms])
  have noid: "\<And>t. t \<in> set new \<Longrightarrow> pkg_id t = None"
    by (rule synthesized_no_id [OF assms])
  have v: "vanished_ids D (packages repo @ new) = vanished_ids D (packages repo)"
    by (rule vanished_ids_no_id [OF noid])
  have a: "all_ids (packages repo @ new) = all_ids (packages repo)"
    by (rule all_ids_no_id [OF noid])
  show ?thesis
    unfolding reconcile_def assms
    by (simp add: pkgs v a case_prod_unfold del: run_calls.simps append_is_Nil_conv)
qed

lemma reconcile_returned:
  assumes "reconcile lib free repo D R = (tr, Inr repo')"
  shows "\<exists>new. synthesize lib repo D R = Inr (new, packages repo @ new)
           \<and> tr = bulk_create_test_folders new (repo_id repo)
                  @ bulk_remove_test_folders (vanished_ids D (packages repo)) (repo_id repo)
                  @ (if D = [] \<and> packages repo @ new \<noteq> []
                     then bulk_remove_test_folders (all_ids (packages repo)) (repo_id repo)
                     else [])
           \<and> repo' = repo\<lparr>packages := packages repo @ new\<rparr>"
proof -
  from assms obtain new pkgs where s: "synthesize lib repo D R = Inr (new, pkgs)"
    by (auto simp: reconcile_def split: sum.splits)
  have pkgs: "pkgs = packages repo @ new"
    by (rule synthesize_Inr(2) [OF s])
  let ?calls = "[bulk_create_test_folders new (repo_id repo),
                 bulk_remove_test_folders (vanished_ids D (packages repo)) (repo_id repo)]
                @ (if D = [] \<and> packages repo @ new \<noteq> []
                   then [bulk_remove_test_folders (all_ids (packages repo)) (repo_id repo)]
                   else [])"
  obtain tr0 b0 where x: "run_calls free ?calls = (tr0, b0)"
    by (cases "run_calls free ?calls")
  have "reconcile lib free repo D R =
          (tr0, if b0 then Inr (repo\<lparr>packages := packages repo @ new\<rparr>)
                else Inl BlockedOnLimit)"
    by (simp only: reconcile_synthesized [OF s] x fst_conv snd_conv)
  with assms have tr: "tr0 = tr" and b: "b0"
    and repo': "repo' = repo\<lparr>packages := packages repo @ new\<rparr>"
    by (simp_all split: if_splits)
  from x tr b have "run_calls free ?calls = (tr, True)"
    by simp
  from run_calls_returned [OF this] have "tr = concat ?calls" .
  then have "tr = bulk_create_test_folders new (repo_id repo)
                  @ bulk_remove_test_folders (vanished_ids D (packages repo)) (repo_id repo)
                  @ (if D = [] \<and> packages repo @ new \<noteq> []
                     then bulk_remove_test_folders (all_ids (packages repo)) (repo_id repo)
                     else [])"
    by (simp only: concat_three)
  with s pkgs repo' show ?thesis by blast
qed

lemma reconcile_calls:
  assumes "reconcile lib free repo D R = (tr, res)"
  shows "\<exists>k calls. tr = concat (take k calls)
           \<and> (\<forall>call \<in> set calls.
                 (\<exists>new. call = bulk_create_test_folders new (repo_id repo)
                         \<and> (\<forall>t \<in> set new. pkg_id t = None))
                 \<or> call = bulk_remove_test_folders (vanished_ids D (packages repo)) (repo_id repo)
                 \<or> call = bulk_remove_test_folders (all_ids (packages repo)) (repo_id repo))"
proof (cases "synthesize lib repo D R")
  case (Inl e)
  with assms have "tr = concat (take 0 [])" by (simp add: reconcile_def)
  then show ?thesis by (metis empty_iff list.set(1))
next
  case (Inr st)
  obtain new pkgs where st: "st = (new, pkgs)" by (cases st)
  with Inr have s: "synthesize lib repo D R = Inr (new, pkgs)" by simp
  have noid: "\<And>t. t \<in> set new \<Longrightarrow> pkg_id t = None"
    by (rule synthesized_no_id [OF s])
  let ?calls = "[bulk_create_test_folders new (repo_id repo),
                 bulk_remove_test_folders (vanished_ids D (packages repo)) (repo_id repo)]
                @ (if D = [] \<and> packages repo @ new \<noteq> []
                   then [bulk_remove_test_folders (all_ids (packages repo)) (repo_id repo)]
                   else [])"
  obtain tr0 b0 where x: "run_calls free ?calls = (tr0, b0)"
    by (cases "run_calls free ?calls")
  have "reconcile lib free repo D R =
          (tr0, if b0 then Inr (repo\<lparr>packages := packages repo @ new\<rparr>)
                else Inl BlockedOnLimit)"
    by (simp only: reconcile_synthesized [OF s] x fst_conv snd_conv)
  with assms have "tr0 = tr" by simp
  with x have r: "run_calls free ?calls = (tr, b0)"
    by simp
  from run_calls_prefix [OF r] obtain k where k: "tr = concat (take k ?calls)" by blast
  have "\<forall>call \<in> set ?calls.
          (\<exists>new. call = bulk_create_test_folders new (repo_id repo)
                  \<and> (\<forall>t \<in> set new. pkg_id t = None))
          \<or> call = bulk_remove_test_folders (vanished_ids D (packages repo)) (repo_id repo)
          \<or> call = bulk_remove_test_folders (all_ids (packages repo)) (repo_id repo)"
    using noid by auto
  with k show ?thesis by blast
qed

subsection \<open>The git part of a pass\<close>

lemma acquire_events:
  "acquire w repo = (ev, r) \<Longrightarrow> ev = [GitClone (repo_url repo)] \<or> ev = [GitPull]"
  by (auto simp: acquire_def split: if_splits git_result.splits)

lemma self_heal_events:
  "self_heal lib w repo rules = (ev, r) \<Longrightarrow> ev = [RmTree, GitClone (repo_url repo)]"
  by (auto simp: self_heal_def split: git_result.splits sum.splits)

lemma self_heal_completed:
  "self_heal lib w repo rules = (ev, Inr (D, R)) \<Longrightarrow>
     (\<exists>repo_dir. on_reclone w = GitReturns repo_dir \<and> discover lib repo_dir repo = Inr D)
     \<and> R = filter (\<lambda>r. snd r \<in> set D) rules"
  by (auto simp: self_heal_def get_compiled_test_rules_def compile_loop_eq
      split: git_result.splits sum.splits)

lemma checkout_and_compile_events:
  "checkout_and_compile lib w repo = (ev, r) \<Longrightarrow>
     \<exists>first. (first = GitClone (repo_url repo) \<or> first = GitPull) \<and>
        (ev = [first] \<or> ev = [first, RmTree, GitClone (repo_url repo)])"
  by (auto simp: checkout_and_compile_def split: prod.splits sum.splits if_splits
       dest!: acquire_events self_heal_events)

lemma checkout_and_compile_rules:
  "checkout_and_compile lib w repo = (ev, Inr (D, R)) \<Longrightarrow>
     \<exists>rules. R = filter (\<lambda>r. snd r \<in> set D) rules"
  by (auto simp: checkout_and_compile_def get_compiled_test_rules_def compile_loop_eq
      split: prod.splits sum.splits if_splits dest!: self_heal_completed)

lemma compiled_targets_discovered:
  "checkout_and_compile lib w repo = (ev, Inr (D, R)) \<Longrightarrow> snd ` set R \<subseteq> set D"
  by (drule checkout_and_compile_rules) auto

lemma no_folders_no_rules:
  "checkout_and_compile lib w repo = (ev, Inr ([], R)) \<Longrightarrow> R = []"
  by (drule compiled_targets_discovered) simp

subsection \<open>Reading the trace of a pass\<close>

lemma create_calls_append: "create_calls (a @ b) = create_calls a @ create_calls b"
  by (induction a rule: create_calls.induct) simp_all

lemma remove_calls_append: "remove_calls (a @ b) = remove_calls a @ remove_calls b"
  by (induction a rule: remove_calls.induct) simp_all

lemma requests_Nil [simp]: "requests [] = []"
  by (simp add: requests_def)

lemma requests_append: "requests (a @ b) = requests a @ requests b"
  by (simp add: requests_def)

lemma calls_of_bulk_create:
  "create_calls (bulk_create_test_folders ts rid) = [ts]"
  "remove_calls (bulk_create_test_folders ts rid) = []"
  "requests (bulk_create_test_folders ts rid) =
     (if ts = [] then [] else [MakeRequest ''post'' (BulkCreateEndpoint rid) (JsonPackages ts)])"
  by (simp_all add: bulk_create_test_folders_def requests_def)

lemma calls_of_bulk_remove:
  "create_calls (bulk_remove_test_folders ids rid) = []"
  "remove_calls (bulk_remove_test_folders ids rid) = [ids]"
  "requests (bulk_remove_test_folders ids rid) =
     (if ids = [] then [] else [MakeRequest ''post'' (BulkRemoveEndpoint rid) (JsonIds ids)])"
  by (simp_all add: bulk_remove_test_folders_def requests_def)

lemma calls_of_git:
  assumes "checkout_and_compile lib w repo = (ev, r)"
  shows "create_calls ev = []" and "remove_calls ev = []" and "requests ev = []"
  using checkout_and_compile_events [OF assms] by (auto simp: requests_def)

lemma gerrit_rewrite_fields [simp]:
  "packages (gerrit_rewrite lib u repo) = packages repo"
  "repo_id (gerrit_rewrite lib u repo) = repo_id repo"
  by (simp_all add: gerrit_rewrite_def)

lemma pass_cases:
  assumes "process_repo lib u w repo = (tr, res)"
  obtains
    (blocked) "permits w = 0" and "tr = []" and "res = Inl BlockedOnLimit"
  | (aborted) x where "permits w \<noteq> 0"
      and "checkout_and_compile lib w (gerrit_rewrite lib u repo) = (tr, Inl x)"
      and "res = Inl x"
  | (diffed) ev D R tr2 r2 where "permits w \<noteq> 0"
      and "checkout_and_compile lib w (gerrit_rewrite lib u repo) = (ev, Inr (D, R))"
      and "reconcile lib (permits w - 1) (gerrit_rewrite lib u repo) D R = (tr2, r2)"
      and "tr = ev @ tr2"
      and "res = map_sum id
                   (\<lambda>r. \<lparr>final_folders = D, final_rules = R, final_repo = r\<rparr>) r2"
proof (cases "permits w = 0")
  case True
  with assms have "tr = []" and "res = Inl BlockedOnLimit"
    by (simp_all add: process_repo_def)
  with True show ?thesis by (rule blocked)
next
  case False
  obtain ev r where c: "checkout_and_compile lib w (gerrit_rewrite lib u repo) = (ev, r)"
    by (cases "checkout_and_compile lib w (gerrit_rewrite lib u repo)")
  show ?thesis
  proof (cases r)
    case (Inl x)
    with assms False c have "tr = ev" and "res = Inl x"
      by (simp_all add: process_repo_def)
    with False c Inl show ?thesis by (auto intro: aborted)
  next
    case (Inr DR)
    obtain D R where DR: "DR = (D, R)" by (cases DR)
    obtain tr2 r2 where
      rc: "reconcile lib (permits w - 1) (gerrit_rewrite lib u repo) D R = (tr2, r2)"
      by (cases "reconcile lib (permits w - 1) (gerrit_rewrite lib u repo) D R")
    from assms False c Inr DR rc have "tr = ev @ tr2"
      and "res = map_sum id
                   (\<lambda>r. \<lparr>final_folders = D, final_rules = R, final_repo = r\<rparr>) r2"
      by (cases r2; simp add: process_repo_def)+
    with False c Inr DR rc show ?thesis by (auto intro: diffed)
  qed
qed

lemma pass_completed:
  assumes "process_repo lib u w repo = (tr, Inr e)"
  shows "\<exists>ev new. permits w \<noteq> 0
           \<and> checkout_and_compile lib w (gerrit_rewrite lib u repo)
                = (ev, Inr (final_folders e, final_rules e))
           \<and> synthesize lib (gerrit_rewrite lib u repo) (final_folders e) (final_rules e)
                = Inr (new, packages repo @ new)
           \<and> tr = ev
                  @ bulk_create_test_folders new (repo_id repo)
                  @ bulk_remove_test_folders
                      (vanished_ids (final_folders e) (packages repo)) (repo_id repo)
                  @ (if final_folders e = [] \<and> packages repo @ new \<noteq> []
                     then bulk_remove_test_folders (all_ids (packages repo)) (repo_id repo)
                     else [])"
  using assms
proof (cases rule: pass_cases)
  case blocked
  then show ?thesis by simp
next
  case (aborted x)
  then show ?thesis by simp
next
  case (diffed ev D R tr2 r2)
  from diffed(5) obtain r where r2: "r2 = Inr r"
    and e: "e = \<lparr>final_folders = D, final_rules = R, final_repo = r\<rparr>"
    by (cases r2) auto
  from reconcile_returned [OF diffed(3) [unfolded r2]] diffed(1,2,4) e
  show ?thesis by auto
qed

lemma calls_of_maybe_remove:
  "create_calls (if c then bulk_remove_test_folders ids rid else []) = []"
  "remove_calls (if c then bulk_remove_test_folders ids rid else []) = (if c then [ids] else [])"
  "requests (if c then bulk_remove_test_folders ids rid else []) =
     (if c then requests (bulk_remove_test_folders ids rid) else [])"
  by (simp_all add: calls_of_bulk_remove)

lemma completed_calls:
  assumes "process_repo lib u w repo = (tr, Inr e)"
  shows "\<exists>new.
    synthesize lib (gerrit_rewrite lib u repo) (final_folders e) (final_rules e)
       = Inr (new, packages repo @ new)
    \<and> create_calls tr = [new]
    \<and> remove_calls tr =
           vanished_ids (final_folders e) (packages repo) #
           (if final_folders e = [] \<and> packages repo \<noteq> [] then [all_ids (packages repo)] else [])
    \<and> requests tr =
           requests (bulk_create_test_folders new (repo_id repo))
           @ requests (bulk_remove_test_folders
               (vanished_ids (final_folders e) (packages repo)) (repo_id repo))
           @ (if final_folders e = [] \<and> packages repo \<noteq> []
              then requests (bulk_remove_test_folders (all_ids (packages repo)) (repo_id repo))
              else [])
    \<and> snd ` set (final_rules e) \<subseteq> set (final_folders e)"
proof -
  from pass_completed [OF assms] obtain ev new where
    c: "checkout_and_compile lib w (gerrit_rewrite lib u repo)
          = (ev, Inr (final_folders e, final_rules e))"
    and s: "synthesize lib (gerrit_rewrite lib u repo) (final_folders e) (final_rules e)
          = Inr (new, packages repo @ new)"
    and tr: "tr = ev
                  @ bulk_create_test_folders new (repo_id repo)
                  @ bulk_remove_test_folders
                      (vanished_ids (final_folders e) (packages repo)) (repo_id repo)
                  @ (if final_folders e = [] \<and> packages repo @ new \<noteq> []
                     then bulk_remove_test_folders (all_ids (packages repo)) (repo_id repo)
                     else [])"
    by blast
  have sub: "snd ` set (final_rules e) \<subseteq> set (final_folders e)"
    by (rule compiled_targets_discovered [OF c])
  have cond: "(final_folders e = [] \<and> packages repo @ new \<noteq> [])
                \<longleftrightarrow> (final_folders e = [] \<and> packages repo \<noteq> [])"
  proof (cases "final_folders e = []")
    case True
    with sub have "final_rules e = []" by simp
    with s True have "new = []" by (simp add: synthesize_nothing)
    then show ?thesis by simp
  next
    case False
    then show ?thesis by simp
  qed
  have 1: "create_calls tr = [new]"
    unfolding tr
    by (simp only: create_calls_append calls_of_git [OF c] calls_of_bulk_create
        calls_of_bulk_remove calls_of_maybe_remove append_Nil append_Nil2)
  have 2: "remove_calls tr =
           vanished_ids (final_folders e) (packages repo) #
           (if final_folders e = [] \<and> packages repo \<noteq> [] then [all_ids (packages repo)] else [])"
    unfolding tr cond
    by (simp only: remove_calls_append calls_of_git [OF c] calls_of_bulk_create
        calls_of_bulk_remove calls_of_maybe_remove append_Nil append_Nil2 append_Cons)
  have 3: "requests tr =
           requests (bulk_create_test_folders new (repo_id repo))
           @ requests (bulk_remove_test_folders
               (vanished_ids (final_folders e) (packages repo)) (repo_id repo))
           @ (if final_folders e = [] \<and> packages repo \<noteq> []
              then requests (bulk_remove_test_folders (all_ids (packages repo)) (repo_id repo))
              else [])"
    unfolding tr cond
    by (simp only: requests_append calls_of_git [OF c] calls_of_maybe_remove append_Nil)
  from s 1 2 3 sub show ?thesis by blast
qed

lemma calls_in_prefix:
  "ids \<in> set (remove_calls (concat (take k calls))) \<Longrightarrow>
     \<exists>call \<in> set calls. ids \<in> set (remove_calls call)"
  "ts \<in> set (create_calls (concat (take k calls))) \<Longrightarrow>
     \<exists>call \<in> set calls. ts \<in> set (create_calls call)"
proof -
  have "set (remove_calls (concat xs)) = (\<Union>call \<in> set xs. set (remove_calls call))" for xs
    by (induction xs) (simp_all add: remove_calls_append)
  moreover have "set (create_calls (concat xs)) = (\<Union>call \<in> set xs. set (create_calls call))"
    for xs
    by (induction xs) (simp_all add: create_calls_append)
  ultimately show
    "ids \<in> set (remove_calls (concat (take k calls))) \<Longrightarrow>
       \<exists>call \<in> set calls. ids \<in> set (remove_calls call)"
    "ts \<in> set (create_calls (concat (take k calls))) \<Longrightarrow>
       \<exists>call \<in> set calls. ts \<in> set (create_calls call)"
    by (auto dest: in_set_takeD)
qed

lemma any_pass_calls:
  assumes "process_repo lib u w repo = (tr, res)"
  shows "(\<forall>ids \<in> set (remove_calls tr).
           \<exists>D. ids = vanished_ids D (packages repo) \<or> ids = all_ids (packages repo))
         \<and> (\<forall>ts \<in> set (create_calls tr). \<forall>t \<in> set ts. pkg_id t = None)"
  using assms
proof (cases rule: pass_cases)
  case blocked
  then show ?thesis by simp
next
  case (aborted x)
  from calls_of_git [OF aborted(2)] show ?thesis by simp
next
  case (diffed ev D R tr2 r2)
  from reconcile_calls [OF diffed(3)] obtain k calls where
    tr2: "tr2 = concat (take k calls)"
    and calls: "\<forall>call \<in> set calls.
                 (\<exists>new. call = bulk_create_test_folders new (repo_id repo)
                         \<and> (\<forall>t \<in> set new. pkg_id t = None))
                 \<or> call = bulk_remove_test_folders (vanished_ids D (packages repo)) (repo_id repo)
                 \<or> call = bulk_remove_test_folders (all_ids (packages repo)) (repo_id repo)"
    by auto
  have r: "remove_calls tr = remove_calls tr2" and c: "create_calls tr = create_calls tr2"
    by (simp_all add: diffed(4) remove_calls_append create_calls_append
        calls_of_git [OF diffed(2)])
  have "\<exists>D. ids = vanished_ids D (packages repo) \<or> ids = all_ids (packages repo)"
    if "ids \<in> set (remove_calls tr)" for ids
  proof -
    from that r tr2 calls_in_prefix(1) obtain call where
      "call \<in> set calls" and i: "ids \<in> set (remove_calls call)"
      by metis
    with calls consider
      new where "call = bulk_create_test_folders new (repo_id repo)"
      | "call = bulk_remove_test_folders (vanished_ids D (packages repo)) (repo_id repo)"
      | "call = bulk_remove_test_folders (all_ids (packages repo)) (repo_id repo)"
      by blast
    then show ?thesis
      using i by cases (auto simp: calls_of_bulk_create calls_of_bulk_remove)
  qed
  moreover have "\<forall>t \<in> set ts. pkg_id t = None"
    if "ts \<in> set (create_calls tr)" for ts
  proof -
    from that c tr2 calls_in_prefix(2) obtain call where
      "call \<in> set calls" and i: "ts \<in> set (create_calls call)"
      by metis
    with calls consider
      new where "call = bulk_create_test_folders new (repo_id repo)"
        and "\<forall>t \<in> set new. pkg_id t = None"
      | "call = bulk_remove_test_folders (vanished_ids D (packages repo)) (repo_id repo)"
      | "call = bulk_remove_test_folders (all_ids (packages repo)) (repo_id repo)"
      by blast
    then show ?thesis
      using i by cases (auto simp: calls_of_bulk_create calls_of_bulk_remove)
  qed
  ultimately show ?thesis by blast
qed

subsection \<open>Concrete passes\<close>

lemma run_ruled:
  "process_repo plain_lib [] (steady_world ruled_tree) (repo_with []) =
     ([GitPull,
       CallBulkCreate
         [new_folder_test plain_lib (repo_with []) ''test-beta'',
          new_rule_test plain_lib (repo_with []) ''^b.*'' ''test-beta''] 7,
       MakeRequest ''post'' (BulkCreateEndpoint 7)
         (JsonPackages
           [new_folder_test plain_lib (repo_with []) ''test-beta'',
            new_rule_test plain_lib (repo_with []) ''^b.*'' ''test-beta'']),
       CallBulkRemove [] 7],
      Inr \<lparr>final_folders = [''test-beta''],
           final_rules = [(''^b.*'', ''test-beta'')],
           final_repo = repo_with
             [new_folder_test plain_lib (repo_with []) ''test-beta'',
              new_rule_test plain_lib (repo_with []) ''^b.*'' ''test-beta'']\<rparr>)"
  by code_simp

lemma run_synced:
  "process_repo plain_lib [] (steady_world ruled_tree) (repo_with [known 5 ''test-beta'']) =
     ([GitPull, CallBulkCreate [] 7, CallBulkRemove [] 7],
      Inr \<lparr>final_folders = [''test-beta''],
           final_rules = [(''^b.*'', ''test-beta'')],
           final_repo = repo_with [known 5 ''test-beta'']\<rparr>)"
  by code_simp

lemma run_emptied:
  "process_repo plain_lib [] (steady_world empty_tree)
       (repo_with [known 1 ''test-alpha'', known 2 ''test-gamma'']) =
     ([GitPull, CallBulkCreate [] 7,
       CallBulkRemove [1, 2] 7,
       MakeRequest ''post'' (BulkRemoveEndpoint 7) (JsonIds [1, 2]),
       CallBulkRemove [1, 2] 7,
       MakeRequest ''post'' (BulkRemoveEndpoint 7) (JsonIds [1, 2])],
      Inr \<lparr>final_folders = [],
           final_rules = [],
           final_repo = repo_with [known 1 ''test-alpha'', known 2 ''test-gamma'']\<rparr>)"
  by code_simp

lemma repo_with_fields [simp]:
  "packages (repo_with pkgs) = pkgs"
  "repo_id (repo_with pkgs) = 7"
  by (simp_all add: repo_with_def)

lemma known_fields [simp]:
  "pkg_id (known i f) = Some i"
  "folder_name (known i f) = f"
  by (simp_all add: known_def)

subsection \<open>The diff of a pass\<close>

text \<open>
  C1, as amended. For a completed pass with discovered folders \<open>D\<close>, compiled rules \<open>R\<close>
  and known packages \<open>K\<close>: the list passed to \<^verbatim>\<open>bulk_create\<close> holds one record for each
  discovered folder not in \<open>K\<close>, in discovery order, followed by one record for each
  compiled rule whose target is not in \<open>K\<close>, in rule order; the folder names created are
  exactly those of \<open>D \<union> R\<close> not in \<open>K\<close>, so a package already known by folder name is
  never re-created; and the identifiers passed to the diff-driven \<^verbatim>\<open>bulk_remove\<close> call
  (the first one) are exactly the set identifiers of the known packages whose folder
  name is not in \<open>D\<close>.
\<close>

theorem pass_diff:
  assumes "process_repo lib gerrit_username w repo = (tr, Inr e)"
  shows "create_calls tr =
           [map (new_folder_test lib (gerrit_rewrite lib gerrit_username repo))
              (filter (\<lambda>f. f \<notin> folder_name ` set (packages repo)) (final_folders e))
            @ map (\<lambda>r. new_rule_test lib (gerrit_rewrite lib gerrit_username repo) (fst r) (snd r))
                (filter (\<lambda>r. snd r \<notin> folder_name ` set (packages repo)) (final_rules e))]
         \<and> folder_name ` set (concat (create_calls tr)) =
             (set (final_folders e) \<union> snd ` set (final_rules e)) - folder_name ` set (packages repo)
         \<and> take 1 (remove_calls tr) =
             [map (\<lambda>p. the (pkg_id p))
                (filter (\<lambda>p. folder_name p \<notin> set (final_folders e) \<and> truthy_int (pkg_id p))
                   (packages repo))]"
proof -
  from completed_calls [OF assms] obtain new where
    s: "synthesize lib (gerrit_rewrite lib gerrit_username repo)
          (final_folders e) (final_rules e) = Inr (new, packages repo @ new)"
    and c: "create_calls tr = [new]"
    and r: "remove_calls tr =
           vanished_ids (final_folders e) (packages repo) #
           (if final_folders e = [] \<and> packages repo \<noteq> [] then [all_ids (packages repo)] else [])"
    by blast
  have new: "new =
      map (new_folder_test lib (gerrit_rewrite lib gerrit_username repo))
        (filter (\<lambda>f. f \<notin> folder_name ` set (packages repo)) (final_folders e))
      @ map (\<lambda>r. new_rule_test lib (gerrit_rewrite lib gerrit_username repo) (fst r) (snd r))
          (filter (\<lambda>r. snd r \<notin> folder_name ` set (packages repo)) (final_rules e))"
    using synthesize_Inr(1) [OF s] by simp
  have "folder_name ` set (concat (create_calls tr)) =
          (set (final_folders e) \<union> snd ` set (final_rules e)) - folder_name ` set (packages repo)"
    using synthesized_folders [OF s] by (simp add: c)
  moreover have "take 1 (remove_calls tr) = [vanished_ids (final_folders e) (packages repo)]"
    by (simp add: r)
  ultimately show ?thesis
    using c new by (simp add: vanished_ids_def)
qed

theorem pass_diff_witness:
  "create_calls
     [GitPull, CallBulkCreate [] 7,
      CallBulkRemove [1, 2] 7, MakeRequest ''post'' (BulkRemoveEndpoint 7) (JsonIds [1, 2]),
      CallBulkRemove [1, 2] 7, MakeRequest ''post'' (BulkRemoveEndpoint 7) (JsonIds [1, 2])]
     = [[]]
   \<and> take 1 (remove_calls
       [GitPull, CallBulkCreate [] 7,
        CallBulkRemove [1, 2] 7, MakeRequest ''post'' (BulkRemoveEndpoint 7) (JsonIds [1, 2]),
        CallBulkRemove [1, 2] 7, MakeRequest ''post'' (BulkRemoveEndpoint 7) (JsonIds [1, 2])])
     = [[1, 2]]"
  using pass_diff [OF run_emptied] by simp

text \<open>
  C1 as stated fails: with no known package, one discovered folder \<open>test-beta\<close> and one
  compiled rule targeting it, \<open>(D \<union> R) - K\<close> has the single element \<open>test-beta\<close>, and the
  list passed to \<^verbatim>\<open>bulk_create\<close> holds two records for it.
\<close>

theorem pass_diff_counterexample:
  "map (map folder_name)
     (create_calls (fst (process_repo plain_lib [] (steady_world ruled_tree) (repo_with []))))
     = [[''test-beta'', ''test-beta'']]
   \<and> map_sum id final_folders
       (snd (process_repo plain_lib [] (steady_world ruled_tree) (repo_with [])))
     = Inr [''test-beta'']
   \<and> map_sum id final_rules
       (snd (process_repo plain_lib [] (steady_world ruled_tree) (repo_with [])))
     = Inr [(''^b.*'', ''test-beta'')]
   \<and> packages (repo_with []) = []"
  by code_simp

subsection \<open>Rule precedence\<close>

text \<open>
  C2, as amended. For a folder name that is not among the known packages, a completed
  pass produces one record for each time it is discovered plus one record for each
  compiled rule that targets it: the rule path looks the target up in the mapping of the
  packages known before the pass, which the discovery path does not update, so it does
  not skip a folder the discovery path has just claimed. A folder that is both
  discovered and a rule target therefore gets at least two records with the same folder
  name.
\<close>

theorem records_per_folder:
  assumes "process_repo lib gerrit_username w repo = (tr, Inr e)"
    and "f \<notin> folder_name ` set (packages repo)"
  shows "length (filter (\<lambda>t. folder_name t = f) (concat (create_calls tr))) =
           length (filter (\<lambda>d. d = f) (final_folders e))
           + length (filter (\<lambda>r. snd r = f) (final_rules e))"
proof -
  from completed_calls [OF assms(1)] obtain new where
    s: "synthesize lib (gerrit_rewrite lib gerrit_username repo)
          (final_folders e) (final_rules e) = Inr (new, packages repo @ new)"
    and c: "create_calls tr = [new]"
    by blast
  have new: "concat (create_calls tr) =
      map (new_folder_test lib (gerrit_rewrite lib gerrit_username repo))
        (filter (\<lambda>f. f \<notin> folder_name ` set (packages repo)) (final_folders e))
      @ map (\<lambda>r. new_rule_test lib (gerrit_rewrite lib gerrit_username repo) (fst r) (snd r))
          (filter (\<lambda>r. snd r \<notin> folder_name ` set (packages repo)) (final_rules e))"
    using synthesize_Inr(1) [OF s] by (simp add: c)
  have a: "filter (\<lambda>t. folder_name t = f) (map (new_folder_test lib r') xs)
             = map (new_folder_test lib r') (filter (\<lambda>d. d = f) xs)" for r' xs
    by (simp add: filter_map comp_def)
  have b: "filter (\<lambda>t. folder_name t = f) (map (\<lambda>r. new_rule_test lib r' (fst r) (snd r)) rs)
             = map (\<lambda>r. new_rule_test lib r' (fst r) (snd r)) (filter (\<lambda>r. snd r = f) rs)" for r' rs
    by (simp add: filter_map comp_def)
  have d: "filter (\<lambda>x. x \<notin> folder_name ` set (packages repo) \<and> x = f) xs
             = filter (\<lambda>d. d = f) xs" for xs
    using assms(2) by (induction xs) auto
  have r: "filter (\<lambda>x. snd x \<notin> folder_name ` set (packages repo) \<and> snd x = f) rs
             = filter (\<lambda>r. snd r = f) rs" for rs :: "(string \<times> string) list"
    using assms(2) by (induction rs) auto
  show ?thesis
    by (simp add: new a b d r)
qed

theorem records_per_folder_witness:
  "length (filter (\<lambda>t. folder_name t = ''test-beta'')
     [new_folder_test plain_lib (repo_with []) ''test-beta'',
      new_rule_test plain_lib (repo_with []) ''^b.*'' ''test-beta'']) = 2"
  using records_per_folder [OF run_ruled, of "''test-beta''"] by simp

text \<open>
  C2 as stated fails: \<open>test-beta\<close> is discovered, is the target of a compiled rule and is
  not known, and the pass produces two records with that folder name, one from each
  path.
\<close>

theorem records_per_folder_counterexample:
  "length (filter (\<lambda>t. folder_name t = ''test-beta'')
     (concat (create_calls
        (fst (process_repo plain_lib [] (steady_world ruled_tree) (repo_with [])))))) = 2
   \<and> map regex
       (concat (create_calls
          (fst (process_repo plain_lib [] (steady_world ruled_tree) (repo_with [])))))
     = [None, Some ''^b.*'']"
  by code_simp

subsection \<open>Idempotence\<close>

text \<open>
  C3. When the known packages are, by folder name, the discovered folders together with
  the targets of the compiled rules (the state the API is in once the creates and removes
  of a pass are applied), a pass synthesizes an empty create list and an empty remove
  list, does not reach the safeguard removal, and makes no request.
\<close>

theorem pass_idempotent:
  assumes "process_repo lib gerrit_username w repo = (tr, Inr e)"
    and "folder_name ` set (packages repo) = set (final_folders e) \<union> snd ` set (final_rules e)"
  shows "create_calls tr = [[]] \<and> remove_calls tr = [[]] \<and> requests tr = []"
proof -
  from completed_calls [OF assms(1)] obtain new where
    s: "synthesize lib (gerrit_rewrite lib gerrit_username repo)
          (final_folders e) (final_rules e) = Inr (new, packages repo @ new)"
    and c: "create_calls tr = [new]"
    and r: "remove_calls tr =
           vanished_ids (final_folders e) (packages repo) #
           (if final_folders e = [] \<and> packages repo \<noteq> [] then [all_ids (packages repo)] else [])"
    and q: "requests tr =
           requests (bulk_create_test_folders new (repo_id repo))
           @ requests (bulk_remove_test_folders
               (vanished_ids (final_folders e) (packages repo)) (repo_id repo))
           @ (if final_folders e = [] \<and> packages repo \<noteq> []
              then requests (bulk_remove_test_folders (all_ids (packages repo)) (repo_id repo))
              else [])"
    and sub: "snd ` set (final_rules e) \<subseteq> set (final_folders e)"
    by blast
  from sub assms(2) have K: "folder_name ` set (packages repo) = set (final_folders e)"
    by auto
  have new: "new = []"
    using sub synthesize_Inr(1) [OF s] by (auto simp: K filter_empty_conv)
  have van: "vanished_ids (final_folders e) (packages repo) = []"
    using K by (auto simp: vanished_ids_def filter_empty_conv)
  have safe: "\<not> (final_folders e = [] \<and> packages repo \<noteq> [])"
    using K by auto
  show ?thesis
    using safe by (simp add: c r q new van calls_of_bulk_create calls_of_bulk_remove)
qed

theorem pass_idempotent_witness:
  "create_calls [GitPull, CallBulkCreate [] 7, CallBulkRemove [] 7] = [[]]
   \<and> remove_calls [GitPull, CallBulkCreate [] 7, CallBulkRemove [] 7] = [[]]
   \<and> requests [GitPull, CallBulkCreate [] 7, CallBulkRemove [] 7] = []"
  using pass_idempotent [OF run_synced] by simp

subsection \<open>What a removal can name\<close>

text \<open>
  C9. Every identifier passed to \<^verbatim>\<open>bulk_remove_test_folders\<close> in a pass, by the
  diff-driven call or by the safeguard call, is the truthy \<^verbatim>\<open>id\<close> of a package the
  repository had before the pass; the records synthesized during the pass have no
  \<^verbatim>\<open>id\<close> and contribute nothing to either list.
\<close>

theorem removed_ids_are_known:
  assumes "process_repo lib gerrit_username w repo = (tr, res)"
  shows "(\<forall>ids \<in> set (remove_calls tr). \<forall>i \<in> set ids.
            i \<noteq> 0 \<and> (\<exists>p \<in> set (packages repo). pkg_id p = Some i))
         \<and> (\<forall>t \<in> set (concat (create_calls tr)). pkg_id t = None)"
proof -
  have known: "i \<noteq> 0 \<and> (\<exists>p \<in> set (packages repo). pkg_id p = Some i)"
    if "i \<in> set ids"
      and "ids = vanished_ids D (packages repo) \<or> ids = all_ids (packages repo)" for i ids D
  proof -
    from that obtain p where "p \<in> set (packages repo)" "truthy_int (pkg_id p)" "i = the (pkg_id p)"
      by (auto simp: vanished_ids_def all_ids_def)
    then show ?thesis
      by (cases "pkg_id p") auto
  qed
  have "\<forall>ids \<in> set (remove_calls tr). \<forall>i \<in> set ids.
            i \<noteq> 0 \<and> (\<exists>p \<in> set (packages repo). pkg_id p = Some i)"
    using any_pass_calls [OF assms] known by blast
  moreover have "\<forall>t \<in> set (concat (create_calls tr)). pkg_id t = None"
    using any_pass_calls [OF assms] by auto
  ultimately show ?thesis by simp
qed

theorem removed_ids_are_known_witness:
  "list_all (\<lambda>ids. list_all (\<lambda>i. i \<noteq> 0 \<and> list_ex (\<lambda>p. pkg_id p = Some i)
       [known 1 ''test-alpha'', known 2 ''test-gamma'']) ids)
     (remove_calls
       [GitPull, CallBulkCreate [] 7,
        CallBulkRemove [1, 2] 7, MakeRequest ''post'' (BulkRemoveEndpoint 7) (JsonIds [1, 2]),
        CallBulkRemove [1, 2] 7, MakeRequest ''post'' (BulkRemoveEndpoint 7) (JsonIds [1, 2])])"
  using removed_ids_are_known [OF run_emptied] by (simp add: list_all_iff list_ex_iff)

subsection \<open>A pass with no discovered folder\<close>

lemma vanished_ids_Nil: "vanished_ids [] pkgs = all_ids pkgs"
  by (simp add: vanished_ids_def all_ids_def)

lemma reconcile_no_folders:
  "reconcile lib free repo [] [] =
     (if all_ids (packages repo) \<noteq> [] \<and> free = 0
      then (bulk_create_test_folders [] (repo_id repo)
            @ bulk_remove_test_folders (all_ids (packages repo)) (repo_id repo),
            Inl BlockedOnLimit)
      else (bulk_create_test_folders [] (repo_id repo)
            @ bulk_remove_test_folders (all_ids (packages repo)) (repo_id repo)
            @ (if packages repo \<noteq> []
               then bulk_remove_test_folders (all_ids (packages repo)) (repo_id repo)
               else []),
            Inr (repo\<lparr>packages := packages repo\<rparr>)))"
proof -
  let ?ids = "all_ids (packages repo)"
  let ?calls = "[bulk_create_test_folders [] (repo_id repo),
                 bulk_remove_test_folders (vanished_ids [] (packages repo)) (repo_id repo)]
                @ (if [] = ([] :: string list) \<and> packages repo @ [] \<noteq> []
                   then [bulk_remove_test_folders ?ids (repo_id repo)]
                   else [])"
  have calls: "?calls =
      bulk_create_test_folders [] (repo_id repo)
      # bulk_remove_test_folders ?ids (repo_id repo)
      # (if packages repo \<noteq> [] then [bulk_remove_test_folders ?ids (repo_id repo)] else [])"
    by (simp add: vanished_ids_Nil)
  have r: "reconcile lib free repo [] [] =
      (fst (run_calls free ?calls),
       if snd (run_calls free ?calls) then Inr (repo\<lparr>packages := packages repo @ []\<rparr>)
       else Inl BlockedOnLimit)"
    by (rule reconcile_synthesized [OF synthesize_nothing])
  show ?thesis
  proof (cases "?ids \<noteq> [] \<and> free = 0")
    case True
    then have "run_calls free ?calls =
        (bulk_create_test_folders [] (repo_id repo)
         @ bulk_remove_test_folders ?ids (repo_id repo), False)"
      unfolding calls by (simp add: calls_of_bulk_create calls_of_bulk_remove)
    with True show ?thesis
      unfolding r by simp
  next
    case False
    have "run_calls free ?calls = (concat ?calls, True)"
    proof (cases "free = 0")
      case True
      with False have ids: "?ids = []" by simp
      show ?thesis
        unfolding calls
        by (rule run_calls_quiet) (auto simp: ids calls_of_bulk_create calls_of_bulk_remove)
    next
      case False
      then show ?thesis by (rule run_calls_free)
    qed
    then have "run_calls free ?calls =
        (bulk_create_test_folders [] (repo_id repo)
         @ bulk_remove_test_folders ?ids (repo_id repo)
         @ (if packages repo \<noteq> [] then bulk_remove_test_folders ?ids (repo_id repo) else []),
         True)"
      unfolding calls by simp
    with False show ?thesis
      unfolding r by simp
  qed
qed

lemma pass_no_folders:
  assumes "permits w \<noteq> 0"
    and "checkout_and_compile lib w (gerrit_rewrite lib u repo) = (ev, Inr ([], R))"
  shows "process_repo lib u w repo =
     (if all_ids (packages repo) \<noteq> [] \<and> permits w = 1
      then (ev @ bulk_create_test_folders [] (repo_id repo)
            @ bulk_remove_test_folders (all_ids (packages repo)) (repo_id repo),
            Inl BlockedOnLimit)
      else (ev @ bulk_create_test_folders [] (repo_id repo)
            @ bulk_remove_test_folders (all_ids (packages repo)) (repo_id repo)
            @ (if packages repo \<noteq> []
               then bulk_remove_test_folders (all_ids (packages repo)) (repo_id repo)
               else []),
            Inr \<lparr>final_folders = [], final_rules = [],
                 final_repo = (gerrit_rewrite lib u repo)\<lparr>packages := packages repo\<rparr>\<rparr>))"
proof -
  have R: "R = []"
    by (rule no_folders_no_rules [OF assms(2)])
  have one: "permits w - 1 = 0 \<longleftrightarrow> permits w = 1"
    using assms(1) by auto
  show ?thesis
    using assms(1)
    by (simp add: process_repo_def assms(2) [unfolded R] reconcile_no_folders one)
qed

lemma checkout_emptied:
  "checkout_and_compile plain_lib (steady_world empty_tree)
     (gerrit_rewrite plain_lib [] (repo_with [known 1 ''test-alpha'', known 2 ''test-gamma'']))
     = ([GitPull], Inr ([], []))"
  by code_simp

lemma permits_steady: "permits (steady_world tree) \<noteq> 0"
  by (simp add: steady_world_def)

subsection \<open>The empty-repository safeguard\<close>

text \<open>
  C4, as amended. In a pass that has its permit and reaches the diff with no discovered
  folder (the checkout, the discovery and the rule compiler are over, and the last
  discovery found nothing), the identifiers of all known packages whose \<^verbatim>\<open>id\<close> is set
  (truthy) are sent to \<^verbatim>\<open>bulk_remove\<close>: the first removal call of the pass is made with
  exactly that list, and when the list is not empty \<^verbatim>\<open>make_request\<close> is invoked with it.
  When each of the \<open>N\<close> known packages carries a set identifier, the list holds all
  \<open>N\<close> of them. Nothing is assumed about how the pass ends.
\<close>

theorem safeguard_removes_all:
  assumes "permits w \<noteq> 0"
    and "checkout_and_compile lib w (gerrit_rewrite lib gerrit_username repo) = (ev, Inr ([], R))"
    and "process_repo lib gerrit_username w repo = (tr, res)"
  shows "take 1 (remove_calls tr) =
           [map (\<lambda>p. the (pkg_id p)) (filter (\<lambda>p. truthy_int (pkg_id p)) (packages repo))]
         \<and> CallBulkRemove
             (map (\<lambda>p. the (pkg_id p)) (filter (\<lambda>p. truthy_int (pkg_id p)) (packages repo)))
             (repo_id repo) \<in> set tr
         \<and> (filter (\<lambda>p. truthy_int (pkg_id p)) (packages repo) \<noteq> [] \<longrightarrow>
              MakeRequest ''post'' (BulkRemoveEndpoint (repo_id repo))
                (JsonIds (map (\<lambda>p. the (pkg_id p))
                   (filter (\<lambda>p. truthy_int (pkg_id p)) (packages repo)))) \<in> set tr)
         \<and> ((\<forall>p \<in> set (packages repo). truthy_int (pkg_id p)) \<longrightarrow>
              take 1 (remove_calls tr) = [map (\<lambda>p. the (pkg_id p)) (packages repo)]
              \<and> length (map (\<lambda>p. the (pkg_id p)) (packages repo)) = length (packages repo))"
proof -
  let ?ids = "all_ids (packages repo)"
  have ids: "?ids = map (\<lambda>p. the (pkg_id p)) (filter (\<lambda>p. truthy_int (pkg_id p)) (packages repo))"
    by (simp add: all_ids_def)
  obtain rest where tr: "tr = ev @ bulk_create_test_folders [] (repo_id repo)
                              @ bulk_remove_test_folders ?ids (repo_id repo) @ rest"
    using assms(3) unfolding pass_no_folders [OF assms(1,2)]
    by (cases "?ids \<noteq> [] \<and> permits w = 1") auto
  have 1: "take 1 (remove_calls tr) = [?ids]"
    by (simp add: tr remove_calls_append calls_of_git [OF assms(2)] calls_of_bulk_create
        calls_of_bulk_remove)
  have 2: "CallBulkRemove ?ids (repo_id repo) \<in> set tr"
    by (simp add: tr bulk_remove_test_folders_def)
  have 3: "MakeRequest ''post'' (BulkRemoveEndpoint (repo_id repo)) (JsonIds ?ids) \<in> set tr"
    if "?ids \<noteq> []"
    using that by (simp add: tr bulk_remove_test_folders_def)
  have 4: "?ids = map (\<lambda>p. the (pkg_id p)) (packages repo)"
    if "\<forall>p \<in> set (packages repo). truthy_int (pkg_id p)"
    using that by (simp add: all_ids_def)
  from 1 2 3 4 show ?thesis
    unfolding ids [symmetric] by (auto simp: ids)
qed

theorem safeguard_removes_all_witness:
  "take 1 (remove_calls
     [GitPull, CallBulkCreate [] 7,
      CallBulkRemove [1, 2] 7, MakeRequest ''post'' (BulkRemoveEndpoint 7) (JsonIds [1, 2]),
      CallBulkRemove [1, 2] 7, MakeRequest ''post'' (BulkRemoveEndpoint 7) (JsonIds [1, 2])])
     = [[1, 2]]
   \<and> length [known 1 ''test-alpha'', known 2 ''test-gamma''] = 2"
  using safeguard_removes_all [OF permits_steady checkout_emptied run_emptied] by simp

text \<open>
  C4 as stated fails. With no discovered folder and the two known packages \<open>known 0\<close>
  and \<open>known 2\<close>, the pass completes and both removal calls carry the single identifier
  \<open>2\<close>: the package whose \<^verbatim>\<open>id\<close> is \<open>0\<close> is not scheduled. And with a rule file but no
  test folder, the first discovery yields nothing, the missing rule target starts the
  repair, and when the re-clone raises the pass returns without any removal.
\<close>

theorem safeguard_removes_all_counterexample:
  "remove_calls
     (fst (process_repo plain_lib [] (steady_world empty_tree)
        (repo_with [known 0 ''test-alpha'', known 2 ''test-gamma''])))
     = [[2], [2]]
   \<and> map_sum id final_folders
       (snd (process_repo plain_lib [] (steady_world empty_tree)
          (repo_with [known 0 ''test-alpha'', known 2 ''test-gamma''])))
     = Inr []
   \<and> length (packages (repo_with [known 0 ''test-alpha'', known 2 ''test-gamma''])) = 2
   \<and> discover plain_lib (Some rules_only_tree)
       (repo_with [known 1 ''test-alpha'', known 2 ''test-gamma''])
     = Inr []
   \<and> process_repo plain_lib [] ((steady_world rules_only_tree)\<lparr>on_reclone := GitRaises\<rparr>)
       (repo_with [known 1 ''test-alpha'', known 2 ''test-gamma''])
     = ([GitPull, RmTree, GitClone ''https://git.example.org/demo/''], Inl CannotCloneGitRepo)"
  by code_simp

subsection \<open>The safeguard repeats the diff-driven removal\<close>




subsection \<open>Folder discovery\<close>

lemma split_slash_not_Nil: "split_slash s \<noteq> []"
  by (induction s) (auto split: list.splits)

lemma split_slash_append:
  "split_slash (d @ CHR ''/'' # s) = split_slash d @ split_slash s"
proof (induction d)
  case Nil
  show ?case by simp
next
  case (Cons c d)
  obtain p ps where p: "split_slash d = p # ps"
    using split_slash_not_Nil [of d] by (cases "split_slash d") auto
  show ?case
    by (simp add: Cons.IH p)
qed

lemma split_slash_star:
  "split_slash ((d @ ''/'') @ ''*'') = split_slash d @ [''*'']"
  using split_slash_append [of d "''*''"] by simp

lemma wildcard_free_star: "wildcard_free p \<Longrightarrow> CHR ''*'' \<notin> set p"
  by (auto simp: wildcard_free_def list_all_iff)

lemma plain_pattern_slash_star:
  "list_all plain_name (split_slash d) \<Longrightarrow> plain_pattern ((d @ ''/'') @ ''*'')"
  unfolding plain_pattern_def split_slash_star
  by (simp add: wildcard_free_def)

lemma fnmatch_literal: "CHR ''*'' \<notin> set p \<Longrightarrow> fnmatch p s = (s = p)"
  by (induction p s rule: fnmatch.induct) auto

lemma fnmatch_star: "fnmatch ''*'' s"
  by (induction s) simp_all

lemma concat_pick:
  "distinct (map fst entries) \<Longrightarrow>
     concat (map (\<lambda>e. if fst e = p then g (snd e) else []) entries) =
       (case map_of entries p of None \<Rightarrow> [] | Some n \<Rightarrow> g n)"
proof (induction entries)
  case Nil
  show ?case by simp
next
  case (Cons e entries)
  show ?case
  proof (cases "fst e = p")
    case True
    with Cons.prems have "p \<notin> fst ` set entries" by auto
    then have "concat (map (\<lambda>e. if fst e = p then g (snd e) else []) entries) = []"
      by (induction entries) auto
    with True show ?thesis by (cases e) simp
  next
    case False
    with Cons show ?thesis by (cases e) simp
  qed
qed

lemma glob_parts_children:
  "wf_node root \<Longrightarrow> \<forall>p \<in> set parts. CHR ''*'' \<notin> set p \<Longrightarrow>
     glob_parts (parts @ [''*'']) root = tests_root_children root parts"
proof (induction parts arbitrary: root)
  case Nil
  show ?case
    by (cases root) (simp_all add: tests_root_children_def fnmatch_star)
next
  case (Cons p parts)
  show ?case
  proof (cases root)
    case (File content)
    then show ?thesis by (simp add: tests_root_children_def)
  next
    case (Dir entries)
    obtain q qs where q: "parts @ [''*''] = q # qs"
      by (cases "parts @ [''*'']") auto
    have lit: "fnmatch p s = (s = p)" for s
      using Cons.prems(2) by (simp add: fnmatch_literal)
    have d: "distinct (map fst entries)"
      using Cons.prems(1) Dir by simp
    have "glob_parts ((p # parts) @ [''*'']) root =
            concat (map (\<lambda>e. if fst e = p then glob_parts (q # qs) (snd e) else []) entries)"
      by (simp add: Dir q lit)
    also have "\<dots> = (case map_of entries p of None \<Rightarrow> [] | Some n \<Rightarrow> glob_parts (q # qs) n)"
      by (rule concat_pick [OF d])
    also have "\<dots> = tests_root_children root (p # parts)"
    proof (cases "map_of entries p")
      case None
      then show ?thesis by (simp add: tests_root_children_def Dir)
    next
      case (Some n)
      then have "(p, n) \<in> set entries" by (rule map_of_SomeD)
      with Cons.prems(1) Dir have "wf_node n" by auto
      with Cons.IH [of n] Cons.prems(2)
      have "glob_parts (q # qs) n = tests_root_children n parts"
        by (simp add: q [symmetric])
      with Some show ?thesis by (simp add: tests_root_children_def Dir)
    qed
    finally show ?thesis .
  qed
qed

lemma scan_folders_eq:
  "scan_folders lib pat found acc =
     (if list_ex (\<lambda>entry. re_search lib pat (fst entry) = None) found then Inl RegexRaised
      else Inr (acc @ map fst (filter (\<lambda>entry. re_search lib pat (fst entry) = Some True)
                                 found)))"
proof (induction found arbitrary: acc)
  case Nil
  show ?case by simp
next
  case (Cons entry found)
  show ?case
  proof (cases "re_search lib pat (fst entry)")
    case None
    then show ?thesis by simp
  next
    case (Some b)
    then show ?thesis by (cases b) (simp_all add: Cons.IH)
  qed
qed

text \<open>
  C8, as amended. Unless \<^verbatim>\<open>glob\<close> or \<^verbatim>\<open>re.search\<close> raises, which ends the pass, the
  discovered folders are exactly the names of the entries that
  \<^verbatim>\<open>repo_dir.glob(tests_dir + '*')\<close> yields, directories and plain files alike, in that
  order, whose own name \<^verbatim>\<open>re.search\<close> matches against \<^verbatim>\<open>^prefix\<close>, or against
  \<^verbatim>\<open>^(prefix|common_dir_name)\<close> when a common-folder name is configured. When
  \<^verbatim>\<open>tests_dir\<close> is a relative path of plain names that ends with a slash, the entries
  \<^verbatim>\<open>glob\<close> yields are exactly the immediate children of the tests root.
\<close>

theorem discover_children:
  "discover lib repo_dir repo =
     (case glob lib repo_dir (tests_dir repo @ ''*'') of
        None \<Rightarrow> Inl GlobRaised
      | Some found \<Rightarrow>
          if list_ex (\<lambda>entry. re_search lib (regex_pattern repo) (fst entry) = None) found
          then Inl RegexRaised
          else Inr (map fst
                 (filter (\<lambda>entry. re_search lib (regex_pattern repo) (fst entry) = Some True)
                    found)))
   \<and> (tests_dir repo = d @ ''/'' \<and> list_all plain_name (split_slash d) \<and> wf_node root \<longrightarrow>
        glob lib (Some root) (tests_dir repo @ ''*'')
          = Some (tests_root_children root (split_slash d)))
   \<and> regex_pattern repo =
       (if truthy_str (common_test_dir_name repo)
        then ''^('' @ tests_prefix_str repo @ ''|'' @ the (common_test_dir_name repo) @ '')''
        else ''^'' @ tests_prefix_str repo)"
proof -
  have a: "discover lib repo_dir repo =
     (case glob lib repo_dir (tests_dir repo @ ''*'') of
        None \<Rightarrow> Inl GlobRaised
      | Some found \<Rightarrow>
          if list_ex (\<lambda>entry. re_search lib (regex_pattern repo) (fst entry) = None) found
          then Inl RegexRaised
          else Inr (map fst
                 (filter (\<lambda>entry. re_search lib (regex_pattern repo) (fst entry) = Some True)
                    found)))"
    by (simp add: discover_def scan_folders_eq split: option.splits)
  have b: "glob lib (Some root) (tests_dir repo @ ''*'')
             = Some (tests_root_children root (split_slash d))"
    if t: "tests_dir repo = d @ ''/''" and p: "list_all plain_name (split_slash d)"
      and wf: "wf_node root"
  proof -
    have plain: "\<forall>p \<in> set (split_slash d). CHR ''*'' \<notin> set p"
      using p by (auto simp: list_all_iff plain_name_def dest: wildcard_free_star)
    have "glob lib (Some root) ((d @ ''/'') @ ''*'')
            = Some (glob_parts (split_slash d @ [''*'']) root)"
      unfolding glob_def if_P [OF plain_pattern_slash_star [OF p]] split_slash_star by simp
    then show ?thesis
      unfolding t glob_parts_children [OF wf plain] .
  qed
  from a b show ?thesis
    by (simp add: regex_pattern_def)
qed

theorem discover_children_witness:
  "discover plain_lib (Some notes_tree) (repo_with []) = Inr [''test-alpha'', ''test-notes.txt'']
   \<and> glob plain_lib (Some notes_tree) ''tests/*''
       = Some [(''test-alpha'', Dir []), (''test-notes.txt'', File None)]"
proof -
  have t: "tests_dir (repo_with []) = ''tests'' @ ''/''"
    by (simp add: repo_with_def)
  have p: "list_all plain_name (split_slash ''tests'')"
    by code_simp
  have wf: "wf_node notes_tree"
    by (simp add: notes_tree_def)
  have c: "tests_root_children notes_tree (split_slash ''tests'')
             = [(''test-alpha'', Dir []), (''test-notes.txt'', File None)]"
    by code_simp
  have r: "regex_pattern (repo_with []) = ''^test-''"
    by code_simp
  have s: "re_search plain_lib ''^test-'' ''test-alpha'' = Some True"
    "re_search plain_lib ''^test-'' ''test-notes.txt'' = Some True"
    by code_simp+
  from discover_children [of plain_lib "Some notes_tree" "repo_with []" "''tests''" notes_tree]
    t p wf
  have g: "glob plain_lib (Some notes_tree) (tests_dir (repo_with []) @ ''*'')
             = Some [(''test-alpha'', Dir []), (''test-notes.txt'', File None)]"
    and d: "discover plain_lib (Some notes_tree) (repo_with []) =
     (case glob plain_lib (Some notes_tree) (tests_dir (repo_with []) @ ''*'') of
        None \<Rightarrow> Inl GlobRaised
      | Some found \<Rightarrow>
          if list_ex (\<lambda>entry. re_search plain_lib (regex_pattern (repo_with [])) (fst entry) = None)
               found
          then Inl RegexRaised
          else Inr (map fst
                 (filter (\<lambda>entry. re_search plain_lib (regex_pattern (repo_with [])) (fst entry)
                            = Some True)
                    found)))"
    unfolding c by blast+
  have "discover plain_lib (Some notes_tree) (repo_with []) = Inr [''test-alpha'', ''test-notes.txt'']"
    unfolding d g by (simp add: r s)
  moreover have "glob plain_lib (Some notes_tree) ''tests/*''
       = Some [(''test-alpha'', Dir []), (''test-notes.txt'', File None)]"
    using g by (simp add: repo_with_def)
  ultimately show ?thesis by simp
qed

text \<open>
  C8 as stated fails, in two ways. The tests root of \<open>notes_tree\<close> holds the directory
  \<open>test-alpha\<close> and the plain file \<open>test-notes.txt\<close>; both names start with the prefix,
  and both are discovered. And with the tests root configured as \<open>test\<close>, with no
  slash at its end, the pattern \<^verbatim>\<open>test*\<close> selects the entries beside the tests root:
  \<open>test-data\<close> is discovered, which is not in the tests root, and \<open>test-alpha\<close>, the
  one directory in the tests root, is not.
\<close>

theorem discover_children_counterexample:
  "discover plain_lib (Some notes_tree) (repo_with []) = Inr [''test-alpha'', ''test-notes.txt'']
   \<and> descend notes_tree [''tests'', ''test-notes.txt''] = Some (File None)
   \<and> tests_dir (repo_with []) = ''tests/''
   \<and> regex_pattern (repo_with []) = ''^test-''
   \<and> discover plain_lib (Some beside_tree) ((repo_with [])\<lparr>tests_dir := ''test''\<rparr>)
       = Inr [''test-data'']
   \<and> tests_root_children beside_tree [''test''] = [(''test-alpha'', Dir [])]"
  by code_simp

subsection \<open>Self-heal\<close>














end
